theory Spec2Isabelle
  imports Main "HOL-Library.Countable"
begin

section \<open>PushChainRoulette: the contract's ledger and state machine\<close>

text \<open>
  A shallow embedding of the Solidity contract \<^verbatim>\<open>PushChainRoulette\<close>.

  \<^item> \<^verbatim>\<open>uint256\<close>, \<^verbatim>\<open>bytes32\<close> and \<^verbatim>\<open>address\<close> values are natural numbers. Solidity 0.8
    checks every \<^verbatim>\<open>+\<close>, \<^verbatim>\<open>-\<close> and \<^verbatim>\<open>++\<close> on \<^verbatim>\<open>uint256\<close>: a result outside
    \<open>0 .. 2^256 - 1\<close> reverts the call with a panic, which the model writes out as the
    error \<open>Panic\<close> in front of every such operation.
  \<^item> A call returns \<open>Inl error\<close> when it reverts and \<open>Inr\<close> of its result and the new
    storage when it completes. A reverted call leaves the storage as it was
    (\<open>transact\<close> below).
  \<^item> \<^verbatim>\<open>keccak256(abi.encodePacked(...))\<close> is a parameter \<open>keccak\<close> of the model, applied
    to the list of packed fields.
  \<^item> A value transfer \<^verbatim>\<open>payable(to).call{value: v}("")\<close> fails when the contract holds
    less than \<open>v\<close> or when the recipient rejects it; whether the recipient accepts is
    part of the environment and may depend on the storage the recipient can observe at
    the moment of the call. The entry points that pay out carry \<^verbatim>\<open>nonReentrant\<close>; the
    model runs top-level calls only and the recipient does not call back.
  \<^item> The private functions \<^verbatim>\<open>_generateRandomNumber\<close>, \<^verbatim>\<open>_generateQuickRandomNumber\<close>
    and \<^verbatim>\<open>_calculatePrize\<close> lose their leading underscore.
\<close>

subsection \<open>Game configuration\<close>

type_synonym address = nat
type_synonym uint256 = nat
type_synonym bytes32 = nat

definition MAX_UINT256 :: uint256 where
  "MAX_UINT256 = 2 ^ 256 - 1"

definition SPIN_COST :: uint256 where
  "SPIN_COST = 100000000000000000"

definition COOLDOWN_PERIOD :: uint256 where
  "COOLDOWN_PERIOD = 30"

definition MAX_PRIZE :: uint256 where
  "MAX_PRIZE = 1000000000000000000"

definition REVEAL_DELAY :: uint256 where
  "REVEAL_DELAY = 2"

definition PRIZE_0 :: uint256 where
  "PRIZE_0 = 0"

definition PRIZE_1 :: uint256 where
  "PRIZE_1 = 50000000000000000"

definition PRIZE_2 :: uint256 where
  "PRIZE_2 = 100000000000000000"

definition PRIZE_3 :: uint256 where
  "PRIZE_3 = 200000000000000000"

definition PRIZE_4 :: uint256 where
  "PRIZE_4 = 500000000000000000"

definition PRIZE_5 :: uint256 where
  "PRIZE_5 = 1000000000000000000"

subsection \<open>Storage, events and errors\<close>

record SpinCommit =
  commitHash :: bytes32
  blockNumber :: uint256
  betAmount :: uint256
  revealed :: bool

datatype event =
    SpinCommitted address bytes32 uint256 uint256
  | SpinRevealed address uint256 uint256 uint256 uint256
  | FundsDeposited address uint256
  | FundsWithdrawn address uint256
  | Paused address
  | Unpaused address

datatype error =
    InsufficientHouseBalance uint256 uint256
  | IncorrectBetAmount uint256 uint256
  | CooldownNotExpired uint256
  | NoCommitFound
  | CommitAlreadyRevealed
  | RevealTooEarly uint256
  | TransferFailed
  | Require string
  | OwnableUnauthorizedAccount address
  | EnforcedPause
  | ExpectedPause
  | CallValueNotAccepted
  | Panic

text \<open>
  The storage of the contract, with the state of its base contracts (\<open>owner\<close> of
  \<^verbatim>\<open>Ownable\<close>, \<open>paused\<close> of \<^verbatim>\<open>Pausable\<close>), the value the contract holds
  (\<^verbatim>\<open>address(this).balance\<close>) and the log of emitted events. A mapping is a total
  function: an unseen key reads as zero.
\<close>

record state =
  houseBalance :: uint256
  nonce :: uint256
  commits :: "address \<Rightarrow> SpinCommit"
  s_lastSpinTime :: "address \<Rightarrow> uint256"
  playerTotalSpins :: "address \<Rightarrow> uint256"
  playerTotalWins :: "address \<Rightarrow> uint256"
  owner :: address
  paused :: bool
  balance :: uint256
  events :: "event list"

text \<open>What a call sees of the transaction and the block it runs in.\<close>

record env =
  msg_sender :: address
  msg_value :: uint256
  block_number :: uint256
  block_timestamp :: uint256
  block_prevrandao :: uint256
  blockhash :: "uint256 \<Rightarrow> bytes32"
  recipient_accepts :: "address \<Rightarrow> uint256 \<Rightarrow> state \<Rightarrow> bool"

text \<open>The fields \<^verbatim>\<open>abi.encodePacked\<close> lays out, by their Solidity type.\<close>

datatype abi_value = Bytes32 bytes32 | Address address | Uint256 uint256

type_synonym hashfn = "abi_value list \<Rightarrow> bytes32"

definition zeroCommit :: SpinCommit where
  "zeroCommit = \<lparr>commitHash = 0, blockNumber = 0, betAmount = 0, revealed = False\<rparr>"

text \<open>\<^verbatim>\<open>constructor() Ownable(msg.sender) {}\<close>: all storage zero, the deployer owns.\<close>

definition constructor :: "env \<Rightarrow> state" where
  "constructor e =
     \<lparr>houseBalance = 0, nonce = 0, commits = (\<lambda>_. zeroCommit),
      s_lastSpinTime = (\<lambda>_. 0), playerTotalSpins = (\<lambda>_. 0), playerTotalWins = (\<lambda>_. 0),
      owner = msg_sender e, paused = False, balance = 0, events = []\<rparr>"

text \<open>A payable call credits the attached value to the contract before its body runs.\<close>

definition credit :: "env \<Rightarrow> state \<Rightarrow> state" where
  "credit e s = s\<lparr>balance := balance s + msg_value e\<rparr>"

text \<open>
  \<^verbatim>\<open>(bool success, ) = payable(to).call{value: v}("")\<close>: the success flag and the storage
  after the call. The recipient sees the storage as the contract has left it, with the
  value already debited.
\<close>

definition call_value :: "env \<Rightarrow> address \<Rightarrow> uint256 \<Rightarrow> state \<Rightarrow> bool \<times> state" where
  "call_value e to v s =
     (if v \<le> balance s \<and> recipient_accepts e to v (s\<lparr>balance := balance s - v\<rparr>)
      then (True, s\<lparr>balance := balance s - v\<rparr>)
      else (False, s))"

subsection \<open>House treasury\<close>

definition depositFunds :: "env \<Rightarrow> state \<Rightarrow> error + state" where
  "depositFunds e s0 =
     (let s = credit e s0 in
      if msg_sender e \<noteq> owner s then Inl (OwnableUnauthorizedAccount (msg_sender e))
      else if \<not> msg_value e > 0 then Inl (Require ''Must send some PC'')
      else if MAX_UINT256 < houseBalance s + msg_value e then Inl Panic
      else Inr (s\<lparr>houseBalance := houseBalance s + msg_value e,
                  events := events s @ [FundsDeposited (msg_sender e) (msg_value e)]\<rparr>))"

definition withdrawFunds :: "env \<Rightarrow> uint256 \<Rightarrow> state \<Rightarrow> error + state" where
  "withdrawFunds e amount s =
     (if msg_sender e \<noteq> owner s then Inl (OwnableUnauthorizedAccount (msg_sender e))
      else if \<not> amount \<le> houseBalance s then Inl (Require ''Insufficient balance'')
      else
        let s1 = s\<lparr>houseBalance := houseBalance s - amount\<rparr>;
            (success, s2) = call_value e (owner s1) amount s1
        in if \<not> success then Inl TransferFailed
           else Inr (s2\<lparr>events := events s2 @ [FundsWithdrawn (owner s2) amount]\<rparr>))"

definition emergencyWithdraw :: "env \<Rightarrow> state \<Rightarrow> error + state" where
  "emergencyWithdraw e s =
     (if msg_sender e \<noteq> owner s then Inl (OwnableUnauthorizedAccount (msg_sender e))
      else if \<not> paused s then Inl ExpectedPause
      else
        let bal = balance s;
            s1 = s\<lparr>houseBalance := 0\<rparr>;
            (success, s2) = call_value e (owner s1) bal s1
        in if \<not> success then Inl TransferFailed
           else Inr (s2\<lparr>events := events s2 @ [FundsWithdrawn (owner s2) bal]\<rparr>))"

definition receive :: "env \<Rightarrow> state \<Rightarrow> error + state" where
  "receive e s0 =
     (let s = credit e s0 in
      if MAX_UINT256 < houseBalance s + msg_value e then Inl Panic
      else Inr (s\<lparr>houseBalance := houseBalance s + msg_value e,
                  events := events s @ [FundsDeposited (msg_sender e) (msg_value e)]\<rparr>))"

definition fallback :: "env \<Rightarrow> state \<Rightarrow> error + state" where
  "fallback e s0 =
     (let s = credit e s0 in
      if MAX_UINT256 < houseBalance s + msg_value e then Inl Panic
      else Inr (s\<lparr>houseBalance := houseBalance s + msg_value e,
                  events := events s @ [FundsDeposited (msg_sender e) (msg_value e)]\<rparr>))"

subsection \<open>Pause control\<close>

definition pause :: "env \<Rightarrow> state \<Rightarrow> error + state" where
  "pause e s =
     (if msg_sender e \<noteq> owner s then Inl (OwnableUnauthorizedAccount (msg_sender e))
      else if paused s then Inl EnforcedPause
      else Inr (s\<lparr>paused := True, events := events s @ [Paused (msg_sender e)]\<rparr>))"

definition unpause :: "env \<Rightarrow> state \<Rightarrow> error + state" where
  "unpause e s =
     (if msg_sender e \<noteq> owner s then Inl (OwnableUnauthorizedAccount (msg_sender e))
      else if \<not> paused s then Inl ExpectedPause
      else Inr (s\<lparr>paused := False, events := events s @ [Unpaused (msg_sender e)]\<rparr>))"

subsection \<open>Randomness draw and prize resolution\<close>

definition generateRandomNumber :: "hashfn \<Rightarrow> env \<Rightarrow> uint256 \<Rightarrow> uint256 \<Rightarrow> state \<Rightarrow> uint256" where
  "generateRandomNumber keccak e secret commitBlock s =
     keccak [Uint256 secret, Uint256 (block_prevrandao e), Bytes32 (blockhash e commitBlock),
             Uint256 (block_timestamp e), Address (msg_sender e), Uint256 (nonce s),
             Uint256 (balance s)] mod 1000"

text \<open>
  \<^verbatim>\<open>_generateQuickRandomNumber\<close> advances the nonce, so it returns the storage too;
  \<^verbatim>\<open>block.number - 1\<close> panics at block 0.
\<close>

definition generateQuickRandomNumber :: "hashfn \<Rightarrow> env \<Rightarrow> state \<Rightarrow> error + (uint256 \<times> state)" where
  "generateQuickRandomNumber keccak e s =
     (if MAX_UINT256 < nonce s + 1 then Inl Panic
      else
        let s1 = s\<lparr>nonce := nonce s + 1\<rparr> in
        if block_number e < 1 then Inl Panic
        else Inr (keccak [Uint256 (block_prevrandao e), Uint256 (block_timestamp e),
                          Address (msg_sender e), Uint256 (nonce s1),
                          Bytes32 (blockhash e (block_number e - 1)),
                          Uint256 (balance s1)] mod 1000, s1))"

definition calculatePrize :: "uint256 \<Rightarrow> uint256" where
  "calculatePrize randomNumber =
     (if randomNumber < 600 then PRIZE_0
      else if randomNumber < 900 then PRIZE_1
      else if randomNumber < 950 then PRIZE_2
      else if randomNumber < 980 then PRIZE_3
      else if randomNumber < 995 then PRIZE_4
      else PRIZE_5)"

subsection \<open>Commit-reveal protocol\<close>

definition commitSpin :: "hashfn \<Rightarrow> env \<Rightarrow> bytes32 \<Rightarrow> state \<Rightarrow> error + (bytes32 \<times> state)" where
  "commitSpin keccak e secretHash s0 =
     (let s = credit e s0; sender = msg_sender e in
      if paused s then Inl EnforcedPause
      else if msg_value e \<noteq> SPIN_COST then Inl (IncorrectBetAmount (msg_value e) SPIN_COST)
      else if houseBalance s < MAX_PRIZE then Inl (InsufficientHouseBalance MAX_PRIZE (houseBalance s))
      else
        let lastSpin = s_lastSpinTime s sender in
        if MAX_UINT256 < lastSpin + COOLDOWN_PERIOD then Inl Panic
        else if block_timestamp e < lastSpin + COOLDOWN_PERIOD
          then Inl (CooldownNotExpired ((lastSpin + COOLDOWN_PERIOD) - block_timestamp e))
        else if \<not> (revealed (commits s sender) \<or> blockNumber (commits s sender) = 0)
          then Inl (Require ''Previous spin not revealed'')
        else if MAX_UINT256 < houseBalance s + msg_value e then Inl Panic
        else if MAX_UINT256 < nonce s + 1 then Inl Panic
        else
          let hash = keccak [Bytes32 secretHash, Address sender,
                             Uint256 (block_timestamp e), Uint256 (nonce s)];
              s1 = s\<lparr>houseBalance := houseBalance s + msg_value e,
                      s_lastSpinTime := (s_lastSpinTime s)(sender := block_timestamp e),
                      nonce := nonce s + 1,
                      commits := (commits s)(sender :=
                        \<lparr>commitHash = hash, blockNumber = block_number e,
                         betAmount = msg_value e, revealed = False\<rparr>),
                      events := events s @
                        [SpinCommitted sender hash (block_number e) (block_timestamp e)]\<rparr>
          in Inr (hash, s1))"

definition revealSpin :: "hashfn \<Rightarrow> env \<Rightarrow> uint256 \<Rightarrow> state \<Rightarrow> error + (uint256 \<times> state)" where
  "revealSpin keccak e secret s =
     (let sender = msg_sender e; commit = commits s sender in
      if paused s then Inl EnforcedPause
      else if blockNumber commit = 0 then Inl NoCommitFound
      else if revealed commit then Inl CommitAlreadyRevealed
      else if MAX_UINT256 < blockNumber commit + REVEAL_DELAY then Inl Panic
      else if block_number e < blockNumber commit + REVEAL_DELAY
        then Inl (RevealTooEarly ((blockNumber commit + REVEAL_DELAY) - block_number e))
      else if nonce s < 1 then Inl Panic
      else
        let secretHash = keccak [Uint256 secret];
            expectedCommit = keccak [Bytes32 secretHash, Address sender,
                                     Uint256 (s_lastSpinTime s sender), Uint256 (nonce s - 1)]
        in
        if \<not> expectedCommit = commitHash commit then Inl (Require ''Invalid secret'')
        else
          let s1 = s\<lparr>commits := (commits s)(sender := commit\<lparr>revealed := True\<rparr>)\<rparr>;
              randomNumber = generateRandomNumber keccak e secret (blockNumber commit) s1;
              prize = calculatePrize randomNumber;
              paid =
                (if prize > 0 then
                   if \<not> houseBalance s1 \<ge> prize then Inl (Require ''Insufficient house balance'')
                   else if MAX_UINT256 < playerTotalWins s1 sender + prize then Inl Panic
                   else
                     let s2 = s1\<lparr>houseBalance := houseBalance s1 - prize,
                                  playerTotalWins := (playerTotalWins s1)
                                    (sender := playerTotalWins s1 sender + prize)\<rparr>;
                         (success, s3) = call_value e sender prize s2
                     in if \<not> success then
                          if MAX_UINT256 < houseBalance s3 + prize then Inl Panic
                          else if playerTotalWins s3 sender < prize then Inl Panic
                          else Inr (s3\<lparr>houseBalance := houseBalance s3 + prize,
                                       playerTotalWins := (playerTotalWins s3)
                                         (sender := playerTotalWins s3 sender - prize)\<rparr>)
                        else Inr s3
                 else Inr s1)
          in case paid of
               Inl err \<Rightarrow> Inl err
             | Inr s4 \<Rightarrow>
                 if MAX_UINT256 < playerTotalSpins s4 sender + 1 then Inl Panic
                 else Inr (prize,
                   s4\<lparr>playerTotalSpins := (playerTotalSpins s4)
                         (sender := playerTotalSpins s4 sender + 1),
                       events := events s4 @
                         [SpinRevealed sender (betAmount (commits s4 sender)) prize
                            randomNumber (block_timestamp e)]\<rparr>))"

subsection \<open>Quick-spin protocol\<close>

definition quickSpin :: "hashfn \<Rightarrow> env \<Rightarrow> state \<Rightarrow> error + (uint256 \<times> state)" where
  "quickSpin keccak e s0 =
     (let s = credit e s0; sender = msg_sender e in
      if paused s then Inl EnforcedPause
      else if msg_value e \<noteq> SPIN_COST then Inl (IncorrectBetAmount (msg_value e) SPIN_COST)
      else if houseBalance s < MAX_PRIZE then Inl (InsufficientHouseBalance MAX_PRIZE (houseBalance s))
      else
        let lastSpin = s_lastSpinTime s sender in
        if MAX_UINT256 < lastSpin + COOLDOWN_PERIOD then Inl Panic
        else if block_timestamp e < lastSpin + COOLDOWN_PERIOD
          then Inl (CooldownNotExpired ((lastSpin + COOLDOWN_PERIOD) - block_timestamp e))
        else if MAX_UINT256 < houseBalance s + msg_value e then Inl Panic
        else
          let s1 = s\<lparr>houseBalance := houseBalance s + msg_value e,
                      s_lastSpinTime := (s_lastSpinTime s)(sender := block_timestamp e)\<rparr>
          in case generateQuickRandomNumber keccak e s1 of
               Inl err \<Rightarrow> Inl err
             | Inr (randomNumber, s1') \<Rightarrow>
                 let prize = calculatePrize randomNumber;
                     paid =
                       (if prize > 0 then
                          if \<not> houseBalance s1' \<ge> prize then Inl (Require ''Insufficient house balance'')
                          else if MAX_UINT256 < playerTotalWins s1' sender + prize then Inl Panic
                          else
                            let s2 = s1'\<lparr>houseBalance := houseBalance s1' - prize,
                                          playerTotalWins := (playerTotalWins s1')
                                            (sender := playerTotalWins s1' sender + prize)\<rparr>;
                                (success, s3) = call_value e sender prize s2
                            in if \<not> success then
                                 if MAX_UINT256 < houseBalance s3 + prize then Inl Panic
                                 else if playerTotalWins s3 sender < prize then Inl Panic
                                 else Inr (s3\<lparr>houseBalance := houseBalance s3 + prize,
                                              playerTotalWins := (playerTotalWins s3)
                                                (sender := playerTotalWins s3 sender - prize)\<rparr>)
                               else Inr s3
                        else Inr s1')
                 in (case paid of
                      Inl err \<Rightarrow> Inl err
                    | Inr s4 \<Rightarrow>
                        if MAX_UINT256 < playerTotalSpins s4 sender + 1 then Inl Panic
                        else Inr (prize,
                          s4\<lparr>playerTotalSpins := (playerTotalSpins s4)
                                (sender := playerTotalSpins s4 sender + 1),
                              events := events s4 @
                                [SpinRevealed sender (msg_value e) prize
                                   randomNumber (block_timestamp e)]\<rparr>)))"

subsection \<open>Read-only accessors\<close>

definition hasPendingCommit :: "address \<Rightarrow> state \<Rightarrow> bool" where
  "hasPendingCommit player s =
     (let commit = commits s player in blockNumber commit > 0 \<and> \<not> revealed commit)"

subsection \<open>Transactions\<close>

text \<open>
  The public surface of the contract. A transaction that reverts leaves the storage
  untouched (the attached value goes back to the sender); one that completes installs
  the storage its body produced. The functions inherited from \<^verbatim>\<open>Ownable\<close> that hand
  the ownership over are not part of the game and are left out.
\<close>

datatype call =
    DepositFunds
  | WithdrawFunds uint256
  | CommitSpin bytes32
  | RevealSpin uint256
  | QuickSpin
  | Pause
  | Unpause
  | EmergencyWithdraw
  | Receive
  | Fallback

text \<open>
  Only \<^verbatim>\<open>depositFunds\<close>, \<^verbatim>\<open>commitSpin\<close>, \<^verbatim>\<open>quickSpin\<close>, \<^verbatim>\<open>receive\<close> and \<^verbatim>\<open>fallback\<close> are
  \<^verbatim>\<open>payable\<close>: a call of any other function with value attached reverts before its
  body runs.
\<close>

definition nonpayable :: "env \<Rightarrow> error + state \<Rightarrow> error + state" where
  "nonpayable e body = (if msg_value e \<noteq> 0 then Inl CallValueNotAccepted else body)"

fun dispatch :: "hashfn \<Rightarrow> env \<Rightarrow> call \<Rightarrow> state \<Rightarrow> error + state" where
  "dispatch keccak e DepositFunds s = depositFunds e s"
| "dispatch keccak e (WithdrawFunds amount) s = nonpayable e (withdrawFunds e amount s)"
| "dispatch keccak e (CommitSpin secretHash) s = map_sum id snd (commitSpin keccak e secretHash s)"
| "dispatch keccak e (RevealSpin secret) s = nonpayable e (map_sum id snd (revealSpin keccak e secret s))"
| "dispatch keccak e QuickSpin s = map_sum id snd (quickSpin keccak e s)"
| "dispatch keccak e Pause s = nonpayable e (pause e s)"
| "dispatch keccak e Unpause s = nonpayable e (unpause e s)"
| "dispatch keccak e EmergencyWithdraw s = nonpayable e (emergencyWithdraw e s)"
| "dispatch keccak e Receive s = receive e s"
| "dispatch keccak e Fallback s = fallback e s"

definition transact :: "hashfn \<Rightarrow> env \<Rightarrow> call \<Rightarrow> state \<Rightarrow> state" where
  "transact keccak e c s = (case dispatch keccak e c s of Inl err \<Rightarrow> s | Inr s' \<Rightarrow> s')"

definition reverted :: "hashfn \<Rightarrow> env \<Rightarrow> call \<Rightarrow> state \<Rightarrow> bool" where
  "reverted keccak e c s = (case dispatch keccak e c s of Inl err \<Rightarrow> True | Inr s' \<Rightarrow> False)"

fun run :: "hashfn \<Rightarrow> (env \<times> call) list \<Rightarrow> state \<Rightarrow> state" where
  "run keccak [] s = s"
| "run keccak ((e, c) # txs) s = run keccak txs (transact keccak e c s)"

subsection \<open>The settlement block\<close>

text \<open>
  \<^verbatim>\<open>revealSpin\<close> and \<^verbatim>\<open>quickSpin\<close> end with the same statements: the payout under
  \<^verbatim>\<open>if (prize > 0)\<close>, the increment of the spin counter and the \<^verbatim>\<open>SpinRevealed\<close>
  event. \<open>settle\<close> is that block on its own, with the wager the event reports as a
  function of the storage; \<open>revealSpin_settle\<close> and \<open>quickSpin_settle\<close> below show that
  both entry points are their guards followed by \<open>settle\<close>.
\<close>

definition settle ::
  "env \<Rightarrow> address \<Rightarrow> (state \<Rightarrow> uint256) \<Rightarrow> uint256 \<Rightarrow> uint256 \<Rightarrow> state \<Rightarrow> error + (uint256 \<times> state)" where
  "settle e sender bet randomNumber prize s1 =
     (let paid =
            (if prize > 0 then
               if \<not> houseBalance s1 \<ge> prize then Inl (Require ''Insufficient house balance'')
               else if MAX_UINT256 < playerTotalWins s1 sender + prize then Inl Panic
               else
                 let s2 = s1\<lparr>houseBalance := houseBalance s1 - prize,
                              playerTotalWins := (playerTotalWins s1)
                                (sender := playerTotalWins s1 sender + prize)\<rparr>;
                     (success, s3) = call_value e sender prize s2
                 in if \<not> success then
                      if MAX_UINT256 < houseBalance s3 + prize then Inl Panic
                      else if playerTotalWins s3 sender < prize then Inl Panic
                      else Inr (s3\<lparr>houseBalance := houseBalance s3 + prize,
                                   playerTotalWins := (playerTotalWins s3)
                                     (sender := playerTotalWins s3 sender - prize)\<rparr>)
                    else Inr s3
             else Inr s1)
      in case paid of
           Inl err \<Rightarrow> Inl err
         | Inr s4 \<Rightarrow>
             if MAX_UINT256 < playerTotalSpins s4 sender + 1 then Inl Panic
             else Inr (prize,
               s4\<lparr>playerTotalSpins := (playerTotalSpins s4)
                     (sender := playerTotalSpins s4 sender + 1),
                   events := events s4 @
                     [SpinRevealed sender (bet s4) prize
                        randomNumber (block_timestamp e)]\<rparr>))"

subsection \<open>Properties of the environment and of the ledger\<close>

text \<open>
  The commitment is only as binding as the hash: \<open>collision_free\<close> says that two
  commitment preimages with the same hash are the same preimage.
\<close>

definition collision_free :: "hashfn \<Rightarrow> bool" where
  "collision_free keccak =
     (\<forall>h a t n h' a' t' n'.
        keccak [Bytes32 h, Address a, Uint256 t, Uint256 n] =
        keccak [Bytes32 h', Address a', Uint256 t', Uint256 n']
        \<longrightarrow> h = h' \<and> a = a' \<and> t = t' \<and> n = n')"

text \<open>The pool never exceeds what the contract holds.\<close>

definition backed :: "state \<Rightarrow> bool" where
  "backed s = (houseBalance s \<le> balance s)"

text \<open>Whether a transaction is a spin that was admitted: a completed commit or quick spin.\<close>

fun is_spin :: "call \<Rightarrow> bool" where
  "is_spin (CommitSpin secretHash) = True"
| "is_spin QuickSpin = True"
| "is_spin c = False"

fun spun :: "hashfn \<Rightarrow> (env \<times> call) list \<Rightarrow> state \<Rightarrow> bool" where
  "spun keccak [] s = False"
| "spun keccak ((e, c) # txs) s =
     ((is_spin c \<and> \<not> reverted keccak e c s) \<or> spun keccak txs (transact keccak e c s))"

text \<open>The transactions that resolve a spin.\<close>

fun resolves :: "call \<Rightarrow> bool" where
  "resolves (RevealSpin secret) = True"
| "resolves QuickSpin = True"
| "resolves c = False"

subsection \<open>A concrete environment\<close>

text \<open>
  To run the model on examples the hash has to be a function that computes. \<open>pairing_hash\<close>
  sends a commitment preimage to its Cantor pairing, which is collision free, and any
  other input to the sum of its fields.
\<close>

fun field :: "abi_value \<Rightarrow> nat" where
  "field (Bytes32 x) = x"
| "field (Address x) = x"
| "field (Uint256 x) = x"

definition pairing_hash :: hashfn where
  "pairing_hash fs =
     (case fs of
        [Bytes32 h, Address a, Uint256 t, Uint256 n] \<Rightarrow>
          prod_encode (h, prod_encode (a, prod_encode (t, n)))
      | _ \<Rightarrow> sum_list (map field fs))"

text \<open>
  A transaction from \<open>sender\<close> with \<open>val\<close> attached, in block \<open>bn\<close> at time \<open>ts\<close>;
  every recipient accepts value.
\<close>

definition tx :: "address \<Rightarrow> uint256 \<Rightarrow> uint256 \<Rightarrow> uint256 \<Rightarrow> env" where
  "tx sender val bn ts =
     \<lparr>msg_sender = sender, msg_value = val, block_number = bn, block_timestamp = ts,
      block_prevrandao = 0, blockhash = (\<lambda>_. 0), recipient_accepts = (\<lambda>_ _ _. True)\<rparr>"

text \<open>The same transaction towards a recipient that rejects value.\<close>

definition tx_rejected :: "address \<Rightarrow> uint256 \<Rightarrow> uint256 \<Rightarrow> uint256 \<Rightarrow> env" where
  "tx_rejected sender val bn ts = (tx sender val bn ts)\<lparr>recipient_accepts := (\<lambda>_ _ _. False)\<rparr>"

text \<open>
  The contract after account 1 has deployed it and deposited 2 ether, and the same
  contract after account 5 has committed to the secret 42 in block 10 at time 1000.
\<close>

definition funded :: state where
  "funded = transact pairing_hash (tx 1 2000000000000000000 2 100) DepositFunds
              (constructor (tx 1 0 1 50))"

definition committed :: state where
  "committed = transact pairing_hash (tx 5 SPIN_COST 10 1000)
                 (CommitSpin (pairing_hash [Uint256 42])) funded"

section \<open>Basic facts\<close>

lemmas prize_defs =
  PRIZE_0_def PRIZE_1_def PRIZE_2_def PRIZE_3_def PRIZE_4_def PRIZE_5_def MAX_PRIZE_def

lemma calculatePrize_le_MAX_PRIZE: "calculatePrize r \<le> MAX_PRIZE"
  by (simp add: calculatePrize_def prize_defs)

lemma generateRandomNumber_commits [simp]:
  "generateRandomNumber keccak e secret b (s\<lparr>commits := c\<rparr>) = generateRandomNumber keccak e secret b s"
  by (simp add: generateRandomNumber_def)

text \<open>The settlement block, branch by branch.\<close>

lemma settle_cases:
  "settle e sender bet r prize s1 =
   (if 0 < prize \<and> houseBalance s1 < prize then Inl (Require ''Insufficient house balance'')
    else if 0 < prize \<and> MAX_UINT256 < playerTotalWins s1 sender + prize then Inl Panic
    else if 0 < prize \<and> fst (call_value e sender prize
          (s1\<lparr>houseBalance := houseBalance s1 - prize,
              playerTotalWins := (playerTotalWins s1)(sender := playerTotalWins s1 sender + prize)\<rparr>))
      then (if MAX_UINT256 < playerTotalSpins s1 sender + 1 then Inl Panic
            else Inr (prize, s1\<lparr>houseBalance := houseBalance s1 - prize,
              playerTotalWins := (playerTotalWins s1)(sender := playerTotalWins s1 sender + prize),
              balance := balance s1 - prize,
              playerTotalSpins := (playerTotalSpins s1)(sender := playerTotalSpins s1 sender + 1),
              events := events s1 @ [SpinRevealed sender
                 (bet (s1\<lparr>houseBalance := houseBalance s1 - prize,
                     playerTotalWins := (playerTotalWins s1)(sender := playerTotalWins s1 sender + prize),
                     balance := balance s1 - prize\<rparr>)) prize r (block_timestamp e)]\<rparr>))
    else if 0 < prize \<and> MAX_UINT256 < houseBalance s1 then Inl Panic
    else if MAX_UINT256 < playerTotalSpins s1 sender + 1 then Inl Panic
    else Inr (prize, s1\<lparr>playerTotalSpins := (playerTotalSpins s1)(sender := playerTotalSpins s1 sender + 1),
              events := events s1 @ [SpinRevealed sender (bet s1) prize r (block_timestamp e)]\<rparr>))"
  unfolding settle_def Let_def call_value_def by simp

lemma revealSpin_settle:
  "revealSpin keccak e secret s =
     (let sender = msg_sender e; commit = commits s sender in
      if paused s then Inl EnforcedPause
      else if blockNumber commit = 0 then Inl NoCommitFound
      else if revealed commit then Inl CommitAlreadyRevealed
      else if MAX_UINT256 < blockNumber commit + REVEAL_DELAY then Inl Panic
      else if block_number e < blockNumber commit + REVEAL_DELAY
        then Inl (RevealTooEarly ((blockNumber commit + REVEAL_DELAY) - block_number e))
      else if nonce s < 1 then Inl Panic
      else if keccak [Bytes32 (keccak [Uint256 secret]), Address sender,
                      Uint256 (s_lastSpinTime s sender), Uint256 (nonce s - 1)] \<noteq> commitHash commit
        then Inl (Require ''Invalid secret'')
      else
        let s1 = s\<lparr>commits := (commits s)(sender := commit\<lparr>revealed := True\<rparr>)\<rparr>;
            randomNumber = generateRandomNumber keccak e secret (blockNumber commit) s1
        in settle e sender (\<lambda>s4. betAmount (commits s4 sender)) randomNumber
             (calculatePrize randomNumber) s1)"
  unfolding revealSpin_def settle_def Let_def by (rule refl)

lemma quickSpin_settle:
  "quickSpin keccak e s0 =
     (let s = credit e s0; sender = msg_sender e in
      if paused s then Inl EnforcedPause
      else if msg_value e \<noteq> SPIN_COST then Inl (IncorrectBetAmount (msg_value e) SPIN_COST)
      else if houseBalance s < MAX_PRIZE then Inl (InsufficientHouseBalance MAX_PRIZE (houseBalance s))
      else if MAX_UINT256 < s_lastSpinTime s sender + COOLDOWN_PERIOD then Inl Panic
      else if block_timestamp e < s_lastSpinTime s sender + COOLDOWN_PERIOD
        then Inl (CooldownNotExpired ((s_lastSpinTime s sender + COOLDOWN_PERIOD) - block_timestamp e))
      else if MAX_UINT256 < houseBalance s + msg_value e then Inl Panic
      else if MAX_UINT256 < nonce s + 1 then Inl Panic
      else if block_number e < 1 then Inl Panic
      else
        let s1 = s\<lparr>houseBalance := houseBalance s + msg_value e,
                    s_lastSpinTime := (s_lastSpinTime s)(sender := block_timestamp e),
                    nonce := nonce s + 1\<rparr>;
            randomNumber =
              keccak [Uint256 (block_prevrandao e), Uint256 (block_timestamp e),
                      Address sender, Uint256 (nonce s1),
                      Bytes32 (blockhash e (block_number e - 1)), Uint256 (balance s1)] mod 1000
        in settle e sender (\<lambda>s4. msg_value e) randomNumber (calculatePrize randomNumber) s1)"
  unfolding quickSpin_def generateQuickRandomNumber_def Let_def
  by (simp add: settle_def Let_def split: sum.split prod.split)

text \<open>What a completed call has checked and done.\<close>

lemma settle_Inr:
  assumes "settle e sender bet r prize s1 = Inr (p, s')"
  shows "p = prize"
    and "nonce s' = nonce s1" and "s_lastSpinTime s' = s_lastSpinTime s1"
    and "commits s' = commits s1" and "paused s' = paused s1" and "owner s' = owner s1"
    and "playerTotalSpins s' = (playerTotalSpins s1)(sender := playerTotalSpins s1 sender + 1)"
    and "prize \<le> houseBalance s1"
    and "(houseBalance s' = houseBalance s1 - prize \<and> balance s' = balance s1 - prize \<and> prize \<le> balance s1
          \<and> playerTotalWins s' = (playerTotalWins s1)(sender := playerTotalWins s1 sender + prize))
         \<or> (houseBalance s' = houseBalance s1 \<and> balance s' = balance s1 \<and> playerTotalWins s' = playerTotalWins s1)"
  using assms by (auto simp add: settle_cases call_value_def split: if_splits)

lemma revealSpin_Inr:
  assumes "revealSpin keccak e secret s = Inr (p, s')"
  shows "\<not> paused s" and "blockNumber (commits s (msg_sender e)) \<noteq> 0"
    and "\<not> revealed (commits s (msg_sender e))"
    and "blockNumber (commits s (msg_sender e)) + REVEAL_DELAY \<le> block_number e"
    and "1 \<le> nonce s"
    and "keccak [Bytes32 (keccak [Uint256 secret]), Address (msg_sender e),
                 Uint256 (s_lastSpinTime s (msg_sender e)), Uint256 (nonce s - 1)]
         = commitHash (commits s (msg_sender e))"
    and "settle e (msg_sender e) (\<lambda>s4. betAmount (commits s4 (msg_sender e)))
           (generateRandomNumber keccak e secret (blockNumber (commits s (msg_sender e))) s)
           (calculatePrize (generateRandomNumber keccak e secret (blockNumber (commits s (msg_sender e))) s))
           (s\<lparr>commits := (commits s)(msg_sender e := (commits s (msg_sender e))\<lparr>revealed := True\<rparr>)\<rparr>)
         = Inr (p, s')"
  using assms by (simp_all add: revealSpin_settle Let_def split: if_splits)

lemma commitSpin_Inr:
  assumes "commitSpin keccak e secretHash s = Inr (h, s')"
  shows "\<not> paused s" and "msg_value e = SPIN_COST" and "MAX_PRIZE \<le> houseBalance s"
    and "s_lastSpinTime s (msg_sender e) + COOLDOWN_PERIOD \<le> block_timestamp e"
    and "revealed (commits s (msg_sender e)) \<or> blockNumber (commits s (msg_sender e)) = 0"
    and "h = keccak [Bytes32 secretHash, Address (msg_sender e), Uint256 (block_timestamp e), Uint256 (nonce s)]"
    and "s' = s\<lparr>houseBalance := houseBalance s + SPIN_COST,
                 s_lastSpinTime := (s_lastSpinTime s)(msg_sender e := block_timestamp e),
                 nonce := nonce s + 1,
                 commits := (commits s)(msg_sender e :=
                    \<lparr>commitHash = h, blockNumber = block_number e,
                     betAmount = SPIN_COST, revealed = False\<rparr>),
                 balance := balance s + SPIN_COST,
                 events := events s @ [SpinCommitted (msg_sender e) h (block_number e) (block_timestamp e)]\<rparr>"
  using assms by (auto simp add: commitSpin_def credit_def Let_def split: if_splits)

lemma credit_simps [simp]:
  "houseBalance (credit e s) = houseBalance s" "nonce (credit e s) = nonce s"
  "commits (credit e s) = commits s" "s_lastSpinTime (credit e s) = s_lastSpinTime s"
  "playerTotalSpins (credit e s) = playerTotalSpins s" "playerTotalWins (credit e s) = playerTotalWins s"
  "owner (credit e s) = owner s" "paused (credit e s) = paused s"
  "balance (credit e s) = balance s + msg_value e" "events (credit e s) = events s"
  by (simp_all add: credit_def)

lemma quickSpin_Inr:
  assumes "quickSpin keccak e s = Inr (p, s')"
  shows "\<not> paused s" and "msg_value e = SPIN_COST" and "MAX_PRIZE \<le> houseBalance s"
    and "s_lastSpinTime s (msg_sender e) + COOLDOWN_PERIOD \<le> block_timestamp e"
    and "\<not> MAX_UINT256 < nonce s + 1" and "0 < block_number e"
    and "settle e (msg_sender e) (\<lambda>s4. msg_value e)
           (keccak [Uint256 (block_prevrandao e), Uint256 (block_timestamp e),
                    Address (msg_sender e), Uint256 (nonce s + 1),
                    Bytes32 (blockhash e (block_number e - 1)),
                    Uint256 (balance s + SPIN_COST)] mod 1000)
           (calculatePrize
             (keccak [Uint256 (block_prevrandao e), Uint256 (block_timestamp e),
                      Address (msg_sender e), Uint256 (nonce s + 1),
                      Bytes32 (blockhash e (block_number e - 1)),
                      Uint256 (balance s + SPIN_COST)] mod 1000))
           ((credit e s)\<lparr>houseBalance := houseBalance s + SPIN_COST,
              s_lastSpinTime := (s_lastSpinTime s)(msg_sender e := block_timestamp e),
              nonce := nonce s + 1\<rparr>) = Inr (p, s')"
  using assms by (simp_all add: quickSpin_settle Let_def split: if_splits)



subsection \<open>The concrete environment, evaluated\<close>

lemma pairing_hash_commit [simp]:
  "pairing_hash [Bytes32 h, Address a, Uint256 t, Uint256 n] = prod_encode (h, prod_encode (a, prod_encode (t, n)))"
  by (simp add: pairing_hash_def)

lemma pairing_hash_secret [simp]: "pairing_hash [Uint256 x] = x"
  by (simp add: pairing_hash_def)

lemma pairing_hash_draw [simp]:
  "pairing_hash [Uint256 a, Uint256 b, Bytes32 c, Uint256 d, Address f, Uint256 g, Uint256 h]
     = a + b + c + d + f + g + h"
  by (simp add: pairing_hash_def)

lemma pairing_hash_quick_draw [simp]:
  "pairing_hash [Uint256 a, Uint256 b, Address c, Uint256 d, Bytes32 f, Uint256 g]
     = a + b + c + d + f + g"
  by (simp add: pairing_hash_def)

lemma collision_free_pairing_hash: "collision_free pairing_hash"
  by (simp add: collision_free_def)

lemma funded_eq:
  "funded = \<lparr>houseBalance = 2000000000000000000, nonce = 0, commits = (\<lambda>_. zeroCommit),
      s_lastSpinTime = (\<lambda>_. 0), playerTotalSpins = (\<lambda>_. 0), playerTotalWins = (\<lambda>_. 0),
      owner = 1, paused = False, balance = 2000000000000000000,
      events = [FundsDeposited 1 2000000000000000000]\<rparr>"
  by (simp add: funded_def transact_def depositFunds_def constructor_def tx_def credit_def MAX_UINT256_def)

lemma committed_eq:
  "committed = \<lparr>houseBalance = 2100000000000000000, nonce = 1,
      commits = (\<lambda>_. zeroCommit)(5 := \<lparr>commitHash = prod_encode (42, prod_encode (5, prod_encode (1000, 0))),
           blockNumber = 10, betAmount = 100000000000000000, revealed = False\<rparr>),
      s_lastSpinTime = (\<lambda>_. 0)(5 := 1000), playerTotalSpins = (\<lambda>_. 0), playerTotalWins = (\<lambda>_. 0),
      owner = 1, paused = False, balance = 2100000000000000000,
      events = [FundsDeposited 1 2000000000000000000,
                SpinCommitted 5 (prod_encode (42, prod_encode (5, prod_encode (1000, 0)))) 10 1000]\<rparr>"
  by (simp add: committed_def funded_eq transact_def commitSpin_def tx_def credit_def MAX_UINT256_def
     SPIN_COST_def MAX_PRIZE_def COOLDOWN_PERIOD_def zeroCommit_def Let_def)

lemmas eval_defs =
  tx_def tx_rejected_def committed_eq funded_eq constructor_def zeroCommit_def
  MAX_UINT256_def SPIN_COST_def MAX_PRIZE_def COOLDOWN_PERIOD_def REVEAL_DELAY_def prize_defs
  calculatePrize_def generateRandomNumber_def credit_def call_value_def Let_def
  transact_def reverted_def nonpayable_def hasPendingCommit_def backed_def

section \<open>Prize resolution\<close>

text \<open>
  C6. The prize is a function of the draw alone: what a completed \<open>revealSpin\<close> or
  \<open>quickSpin\<close> returns is \<open>calculatePrize\<close> of its draw. Both draws are integers in
  0..999; the tiers change exactly at 600, 900, 950, 980 and 995; the six amounts are 0,
  0.05, 0.1, 0.2, 0.5 and 1 ether, strictly increasing, the largest being \<open>MAX_PRIZE\<close>; a
  larger draw never yields a smaller prize.
\<close>

theorem prize_tiers:
  "generateRandomNumber keccak e secret b s < 1000
   \<and> (generateQuickRandomNumber keccak e s = Inr (q, s') \<longrightarrow> q < 1000)
   \<and> (\<forall>p st. revealSpin keccak e secret s = Inr (p, st) \<longrightarrow>
         p = calculatePrize
               (generateRandomNumber keccak e secret (blockNumber (commits s (msg_sender e))) s))
   \<and> (\<forall>p st. quickSpin keccak e s = Inr (p, st) \<longrightarrow>
         p = calculatePrize
               (keccak [Uint256 (block_prevrandao e), Uint256 (block_timestamp e),
                        Address (msg_sender e), Uint256 (nonce s + 1),
                        Bytes32 (blockhash e (block_number e - 1)),
                        Uint256 (balance s + SPIN_COST)] mod 1000))
   \<and> calculatePrize r =
       (if r < 600 then 0
        else if r < 900 then 50000000000000000
        else if r < 950 then 100000000000000000
        else if r < 980 then 200000000000000000
        else if r < 995 then 500000000000000000
        else 1000000000000000000)
   \<and> PRIZE_0 = 0 \<and> PRIZE_0 < PRIZE_1 \<and> PRIZE_1 < PRIZE_2 \<and> PRIZE_2 < PRIZE_3
   \<and> PRIZE_3 < PRIZE_4 \<and> PRIZE_4 < PRIZE_5 \<and> PRIZE_5 = MAX_PRIZE
   \<and> calculatePrize r \<in> {PRIZE_0, PRIZE_1, PRIZE_2, PRIZE_3, PRIZE_4, PRIZE_5}
   \<and> (r \<le> r' \<longrightarrow> calculatePrize r \<le> calculatePrize r')"
proof -
  have "generateQuickRandomNumber keccak e s = Inr (q, s') \<longrightarrow> q < 1000"
    by (auto simp add: generateQuickRandomNumber_def Let_def split: if_splits)
  moreover have "generateRandomNumber keccak e secret b s < 1000"
    by (simp add: generateRandomNumber_def)
  moreover have "r \<le> r' \<longrightarrow> calculatePrize r \<le> calculatePrize r'"
    by (simp add: calculatePrize_def prize_defs)
  moreover have "p = calculatePrize
               (generateRandomNumber keccak e secret (blockNumber (commits s (msg_sender e))) s)"
    if "revealSpin keccak e secret s = Inr (p, st)" for p st
    using settle_Inr(1) [OF revealSpin_Inr(7) [OF that]] .
  moreover have "p = calculatePrize
               (keccak [Uint256 (block_prevrandao e), Uint256 (block_timestamp e),
                        Address (msg_sender e), Uint256 (nonce s + 1),
                        Bytes32 (blockhash e (block_number e - 1)),
                        Uint256 (balance s + SPIN_COST)] mod 1000)"
    if "quickSpin keccak e s = Inr (p, st)" for p st
    using settle_Inr(1) [OF quickSpin_Inr(7) [OF that]] .
  moreover have "calculatePrize r =
       (if r < 600 then 0
        else if r < 900 then 50000000000000000
        else if r < 950 then 100000000000000000
        else if r < 980 then 200000000000000000
        else if r < 995 then 500000000000000000
        else 1000000000000000000)"
    and "PRIZE_0 = 0 \<and> PRIZE_0 < PRIZE_1 \<and> PRIZE_1 < PRIZE_2 \<and> PRIZE_2 < PRIZE_3
      \<and> PRIZE_3 < PRIZE_4 \<and> PRIZE_4 < PRIZE_5 \<and> PRIZE_5 = MAX_PRIZE"
    and "calculatePrize r \<in> {PRIZE_0, PRIZE_1, PRIZE_2, PRIZE_3, PRIZE_4, PRIZE_5}"
    by (simp_all add: calculatePrize_def prize_defs)
  ultimately show ?thesis
    by blast
qed

theorem prize_tiers_witness:
  "generateRandomNumber pairing_hash (tx 5 0 12 1024) 42 10 committed = 72
   \<and> generateQuickRandomNumber pairing_hash (tx 6 SPIN_COST 11 1030) committed
       = Inr (38, committed\<lparr>nonce := 2\<rparr>)
   \<and> (\<exists>st. revealSpin pairing_hash (tx 5 0 12 1600) 42 committed = Inr (PRIZE_1, st))
   \<and> (\<exists>st. quickSpin pairing_hash (tx 6 SPIN_COST 12 1611) committed = Inr (PRIZE_1, st))
   \<and> calculatePrize 599 = 0 \<and> calculatePrize 600 = PRIZE_1
   \<and> calculatePrize 600 \<le> calculatePrize 995 \<and> calculatePrize 995 = MAX_PRIZE"
proof -
  have draws:
    "generateRandomNumber pairing_hash (tx 5 0 12 1024) 42 10 committed = 72
     \<and> generateQuickRandomNumber pairing_hash (tx 6 SPIN_COST 11 1030) committed
       = Inr (38, committed\<lparr>nonce := 2\<rparr>)
     \<and> calculatePrize 599 = 0 \<and> calculatePrize 600 = PRIZE_1
     \<and> calculatePrize 600 \<le> calculatePrize 995 \<and> calculatePrize 995 = MAX_PRIZE"
    using prize_tiers [of pairing_hash "tx 5 0 12 1024" 42 10 committed 38 "committed\<lparr>nonce := 2\<rparr>" 600 995]
      prize_tiers [of pairing_hash "tx 6 SPIN_COST 11 1030" 42 10 committed 38 "committed\<lparr>nonce := 2\<rparr>" 599 600]
    by (simp add: generateRandomNumber_def generateQuickRandomNumber_def tx_def committed_eq
        MAX_UINT256_def prize_defs SPIN_COST_def calculatePrize_def)
  have "\<exists>p st. revealSpin pairing_hash (tx 5 0 12 1600) 42 committed = Inr (p, st)"
    by (simp add: eval_defs revealSpin_settle settle_cases)
  then obtain p st where r: "revealSpin pairing_hash (tx 5 0 12 1600) 42 committed = Inr (p, st)"
    by blast
  from prize_tiers [of pairing_hash "tx 5 0 12 1600" 42 10 committed 38 "committed\<lparr>nonce := 2\<rparr>" 600 995,
      THEN conjunct2, THEN conjunct2, THEN conjunct1, rule_format, OF r]
  have "p = PRIZE_1"
    by (simp add: eval_defs)
  with r have by_reveal: "\<exists>st. revealSpin pairing_hash (tx 5 0 12 1600) 42 committed = Inr (PRIZE_1, st)"
    by blast
  have "\<exists>p st. quickSpin pairing_hash (tx 6 SPIN_COST 12 1611) committed = Inr (p, st)"
    by (simp add: eval_defs quickSpin_settle settle_cases)
  then obtain p' st' where q: "quickSpin pairing_hash (tx 6 SPIN_COST 12 1611) committed = Inr (p', st')"
    by blast
  from prize_tiers [of pairing_hash "tx 6 SPIN_COST 12 1611" 42 10 committed 38 "committed\<lparr>nonce := 2\<rparr>" 600 995,
      THEN conjunct2, THEN conjunct2, THEN conjunct2, THEN conjunct1, rule_format, OF q]
  have "p' = PRIZE_1"
    by (simp add: eval_defs)
  with q have by_quick: "\<exists>st. quickSpin pairing_hash (tx 6 SPIN_COST 12 1611) committed = Inr (PRIZE_1, st)"
    by blast
  from draws by_reveal by_quick show ?thesis by blast
qed

section \<open>House treasury\<close>

text \<open>
  C10. A bare value transfer (no calldata, or no matching selector) is accepted from any
  sender: it adds exactly the transferred amount to \<open>houseBalance\<close> and logs the same
  \<open>FundsDeposited\<close> event as \<open>depositFunds\<close>, with which it coincides whenever
  \<open>depositFunds\<close> accepts the call. The pool is backed and the holdings of the contract
  after the transfer fit a \<open>uint256\<close>, as they do on the chain.
\<close>

theorem bare_transfer_is_deposit:
  assumes "backed s" and "balance s + msg_value e \<le> MAX_UINT256"
  shows "\<exists>s'. receive e s = Inr s' \<and> fallback e s = Inr s'
           \<and> houseBalance s' = houseBalance s + msg_value e
           \<and> balance s' = balance s + msg_value e
           \<and> events s' = events s @ [FundsDeposited (msg_sender e) (msg_value e)]
           \<and> nonce s' = nonce s \<and> commits s' = commits s
           \<and> s_lastSpinTime s' = s_lastSpinTime s
           \<and> playerTotalSpins s' = playerTotalSpins s \<and> playerTotalWins s' = playerTotalWins s
           \<and> owner s' = owner s \<and> paused s' = paused s
           \<and> (msg_sender e = owner s \<and> 0 < msg_value e \<longrightarrow> depositFunds e s = Inr s')"
  using assms
  by (simp add: receive_def fallback_def depositFunds_def backed_def Let_def)

theorem bare_transfer_is_deposit_witness:
  "receive (tx 7 300 3 200) funded = Inr (funded\<lparr>balance := 2000000000000000300,
      houseBalance := 2000000000000000300,
      events := [FundsDeposited 1 2000000000000000000, FundsDeposited 7 300]\<rparr>)
   \<and> fallback (tx 7 300 3 200) funded = receive (tx 7 300 3 200) funded
   \<and> depositFunds (tx 1 300 3 200) funded = Inr (funded\<lparr>balance := 2000000000000000300,
      houseBalance := 2000000000000000300,
      events := [FundsDeposited 1 2000000000000000000, FundsDeposited 1 300]\<rparr>)"
  using bare_transfer_is_deposit [of funded "tx 7 300 3 200"]
    bare_transfer_is_deposit [of funded "tx 1 300 3 200"]
  by (simp add: backed_def funded_eq tx_def MAX_UINT256_def receive_def fallback_def depositFunds_def
       credit_def)

text \<open>
  C8. \<open>withdrawFunds\<close> is for the owner only and needs \<open>amount \<le> houseBalance\<close>. The value
  transfer runs on the storage in which \<open>houseBalance\<close> is already decremented; when it
  fails the call reverts with \<open>TransferFailed\<close>, and a reverted withdrawal, whatever the
  reason, leaves the storage as it was.
\<close>

theorem withdrawFunds_atomic:
  "(msg_sender e \<noteq> owner s \<longrightarrow>
      withdrawFunds e amount s = Inl (OwnableUnauthorizedAccount (msg_sender e)))
   \<and> (msg_sender e = owner s \<and> houseBalance s < amount \<longrightarrow>
      withdrawFunds e amount s = Inl (Require ''Insufficient balance''))
   \<and> (msg_sender e = owner s \<and> amount \<le> houseBalance s
        \<and> \<not> fst (call_value e (owner s) amount (s\<lparr>houseBalance := houseBalance s - amount\<rparr>)) \<longrightarrow>
      withdrawFunds e amount s = Inl TransferFailed)
   \<and> (msg_sender e = owner s \<and> amount \<le> houseBalance s
        \<and> fst (call_value e (owner s) amount (s\<lparr>houseBalance := houseBalance s - amount\<rparr>)) \<longrightarrow>
      withdrawFunds e amount s =
        Inr (s\<lparr>houseBalance := houseBalance s - amount, balance := balance s - amount,
               events := events s @ [FundsWithdrawn (owner s) amount]\<rparr>))
   \<and> (reverted keccak e (WithdrawFunds amount) s \<longrightarrow>
        transact keccak e (WithdrawFunds amount) s = s)"
  by (simp add: withdrawFunds_def call_value_def Let_def reverted_def transact_def split: sum.splits)

theorem withdrawFunds_atomic_witness:
  "withdrawFunds (tx 5 0 3 200) 1 funded = Inl (OwnableUnauthorizedAccount 5)
   \<and> withdrawFunds (tx 1 0 3 200) 3000000000000000000 funded = Inl (Require ''Insufficient balance'')
   \<and> transact pairing_hash (tx 1 0 3 200) (WithdrawFunds 3000000000000000000) funded = funded
   \<and> withdrawFunds (tx_rejected 1 0 3 200) 1000000000000000000 funded = Inl TransferFailed
   \<and> transact pairing_hash (tx_rejected 1 0 3 200) (WithdrawFunds 1000000000000000000) funded = funded
   \<and> withdrawFunds (tx 1 0 3 200) 500000000000000000 funded =
       Inr (funded\<lparr>houseBalance := 1500000000000000000, balance := 1500000000000000000,
         events := [FundsDeposited 1 2000000000000000000, FundsWithdrawn 1 500000000000000000]\<rparr>)"
  using withdrawFunds_atomic [of "tx 5 0 3 200" funded 1 pairing_hash]
    withdrawFunds_atomic [of "tx 1 0 3 200" funded 3000000000000000000 pairing_hash]
    withdrawFunds_atomic [of "tx_rejected 1 0 3 200" funded 1000000000000000000 pairing_hash]
    withdrawFunds_atomic [of "tx 1 0 3 200" funded 500000000000000000 pairing_hash]
  by (simp add: funded_eq tx_def tx_rejected_def call_value_def reverted_def nonpayable_def)

section \<open>Admission control\<close>

lemma quickSpin_no_overlap_check:
  "quickSpin keccak e s \<noteq> Inl (Require ''Previous spin not revealed'')"
  by (simp add: quickSpin_settle settle_cases Let_def)

text \<open>
  C7. On a contract that is not paused, \<open>commitSpin\<close> and \<open>quickSpin\<close> check in this
  order: the exact payment (error with the sent and the required amount), the solvency of
  the pool (error with the required and the available amount), the cooldown (error with the
  remaining wait), and, \<open>commitSpin\<close> only, that no commit is pending. The last-spin
  timestamp the cooldown is measured from is set by \<open>commitSpin\<close> and \<open>quickSpin\<close> and
  left alone by \<open>revealSpin\<close>.
\<close>

theorem admission_order:
  assumes "\<not> paused s"
  shows
   "(msg_value e \<noteq> SPIN_COST \<longrightarrow>
       commitSpin keccak e secretHash s = Inl (IncorrectBetAmount (msg_value e) SPIN_COST)
       \<and> quickSpin keccak e s = Inl (IncorrectBetAmount (msg_value e) SPIN_COST))
    \<and> (msg_value e = SPIN_COST \<and> houseBalance s < MAX_PRIZE \<longrightarrow>
       commitSpin keccak e secretHash s = Inl (InsufficientHouseBalance MAX_PRIZE (houseBalance s))
       \<and> quickSpin keccak e s = Inl (InsufficientHouseBalance MAX_PRIZE (houseBalance s)))
    \<and> (msg_value e = SPIN_COST \<and> MAX_PRIZE \<le> houseBalance s
        \<and> s_lastSpinTime s (msg_sender e) + COOLDOWN_PERIOD \<le> MAX_UINT256
        \<and> block_timestamp e < s_lastSpinTime s (msg_sender e) + COOLDOWN_PERIOD \<longrightarrow>
       commitSpin keccak e secretHash s =
         Inl (CooldownNotExpired (s_lastSpinTime s (msg_sender e) + COOLDOWN_PERIOD - block_timestamp e))
       \<and> quickSpin keccak e s =
         Inl (CooldownNotExpired (s_lastSpinTime s (msg_sender e) + COOLDOWN_PERIOD - block_timestamp e)))
    \<and> (msg_value e = SPIN_COST \<and> MAX_PRIZE \<le> houseBalance s
        \<and> s_lastSpinTime s (msg_sender e) + COOLDOWN_PERIOD \<le> MAX_UINT256
        \<and> s_lastSpinTime s (msg_sender e) + COOLDOWN_PERIOD \<le> block_timestamp e
        \<and> hasPendingCommit (msg_sender e) s \<longrightarrow>
       commitSpin keccak e secretHash s = Inl (Require ''Previous spin not revealed''))
    \<and> quickSpin keccak e s \<noteq> Inl (Require ''Previous spin not revealed'')
    \<and> (\<forall>h s'. commitSpin keccak e secretHash s = Inr (h, s') \<longrightarrow>
          s_lastSpinTime s' = (s_lastSpinTime s)(msg_sender e := block_timestamp e))
    \<and> (\<forall>p s'. quickSpin keccak e s = Inr (p, s') \<longrightarrow>
          s_lastSpinTime s' = (s_lastSpinTime s)(msg_sender e := block_timestamp e))
    \<and> (\<forall>p s'. revealSpin keccak e secret s = Inr (p, s') \<longrightarrow>
          s_lastSpinTime s' = s_lastSpinTime s)"
proof -
  have commit_sets: "s_lastSpinTime s' = (s_lastSpinTime s)(msg_sender e := block_timestamp e)"
    if "commitSpin keccak e secretHash s = Inr (h, s')" for h s'
    using commitSpin_Inr(7) [OF that] by simp
  have quick_sets: "s_lastSpinTime s' = (s_lastSpinTime s)(msg_sender e := block_timestamp e)"
    if "quickSpin keccak e s = Inr (p, s')" for p s'
    using settle_Inr(3) [OF quickSpin_Inr(7) [OF that]] by simp
  have reveal_keeps: "s_lastSpinTime s' = s_lastSpinTime s"
    if "revealSpin keccak e secret s = Inr (p, s')" for p s'
    using settle_Inr(3) [OF revealSpin_Inr(7) [OF that]] by simp
  have guards:
    "msg_value e \<noteq> SPIN_COST \<longrightarrow>
       commitSpin keccak e secretHash s = Inl (IncorrectBetAmount (msg_value e) SPIN_COST)
       \<and> quickSpin keccak e s = Inl (IncorrectBetAmount (msg_value e) SPIN_COST)"
    "msg_value e = SPIN_COST \<and> houseBalance s < MAX_PRIZE \<longrightarrow>
       commitSpin keccak e secretHash s = Inl (InsufficientHouseBalance MAX_PRIZE (houseBalance s))
       \<and> quickSpin keccak e s = Inl (InsufficientHouseBalance MAX_PRIZE (houseBalance s))"
    "msg_value e = SPIN_COST \<and> MAX_PRIZE \<le> houseBalance s
        \<and> s_lastSpinTime s (msg_sender e) + COOLDOWN_PERIOD \<le> MAX_UINT256
        \<and> block_timestamp e < s_lastSpinTime s (msg_sender e) + COOLDOWN_PERIOD \<longrightarrow>
       commitSpin keccak e secretHash s =
         Inl (CooldownNotExpired (s_lastSpinTime s (msg_sender e) + COOLDOWN_PERIOD - block_timestamp e))
       \<and> quickSpin keccak e s =
         Inl (CooldownNotExpired (s_lastSpinTime s (msg_sender e) + COOLDOWN_PERIOD - block_timestamp e))"
    "msg_value e = SPIN_COST \<and> MAX_PRIZE \<le> houseBalance s
        \<and> s_lastSpinTime s (msg_sender e) + COOLDOWN_PERIOD \<le> MAX_UINT256
        \<and> s_lastSpinTime s (msg_sender e) + COOLDOWN_PERIOD \<le> block_timestamp e
        \<and> hasPendingCommit (msg_sender e) s \<longrightarrow>
       commitSpin keccak e secretHash s = Inl (Require ''Previous spin not revealed'')"
    using assms
    by (simp_all add: commitSpin_def quickSpin_settle hasPendingCommit_def Let_def)
  show ?thesis
    using guards commit_sets quick_sets reveal_keeps quickSpin_no_overlap_check by blast
qed


theorem admission_order_witness:
  "commitSpin pairing_hash (tx 5 1 11 1010) 42 committed = Inl (IncorrectBetAmount 1 SPIN_COST)
   \<and> quickSpin pairing_hash (tx 5 1 11 1010) committed = Inl (IncorrectBetAmount 1 SPIN_COST)
   \<and> commitSpin pairing_hash (tx 5 SPIN_COST 11 1010) 42 (constructor (tx 1 0 1 50))
        = Inl (InsufficientHouseBalance MAX_PRIZE 0)
   \<and> quickSpin pairing_hash (tx 5 SPIN_COST 11 1010) (constructor (tx 1 0 1 50))
        = Inl (InsufficientHouseBalance MAX_PRIZE 0)
   \<and> commitSpin pairing_hash (tx 5 SPIN_COST 11 1010) 42 committed = Inl (CooldownNotExpired 20)
   \<and> quickSpin pairing_hash (tx 5 SPIN_COST 11 1010) committed = Inl (CooldownNotExpired 20)
   \<and> commitSpin pairing_hash (tx 5 SPIN_COST 20 1030) 42 committed
        = Inl (Require ''Previous spin not revealed'')
   \<and> s_lastSpinTime (transact pairing_hash (tx 5 SPIN_COST 20 1030) QuickSpin committed) 5 = 1030
   \<and> s_lastSpinTime committed 5 = 1000
   \<and> s_lastSpinTime (transact pairing_hash (tx 5 0 12 1024) (RevealSpin 42) committed) 5 = 1000"
proof -
  have unpaused: "\<not> paused committed" "\<not> paused funded" "\<not> paused (constructor (tx 1 0 1 50))"
    by (simp_all add: eval_defs)
  have wrong_value:
    "commitSpin pairing_hash (tx 5 1 11 1010) 42 committed = Inl (IncorrectBetAmount 1 SPIN_COST)
     \<and> quickSpin pairing_hash (tx 5 1 11 1010) committed = Inl (IncorrectBetAmount 1 SPIN_COST)"
    using admission_order [OF unpaused(1), of "tx 5 1 11 1010" pairing_hash 42 42, THEN conjunct1]
    by (simp add: tx_def SPIN_COST_def)
  have insolvent:
    "commitSpin pairing_hash (tx 5 SPIN_COST 11 1010) 42 (constructor (tx 1 0 1 50))
       = Inl (InsufficientHouseBalance MAX_PRIZE 0)
     \<and> quickSpin pairing_hash (tx 5 SPIN_COST 11 1010) (constructor (tx 1 0 1 50))
       = Inl (InsufficientHouseBalance MAX_PRIZE 0)"
    using admission_order [OF unpaused(3), of "tx 5 SPIN_COST 11 1010" pairing_hash 42 42,
      THEN conjunct2, THEN conjunct1]
    by (simp add: tx_def constructor_def MAX_PRIZE_def)
  have cooling:
    "commitSpin pairing_hash (tx 5 SPIN_COST 11 1010) 42 committed = Inl (CooldownNotExpired 20)
     \<and> quickSpin pairing_hash (tx 5 SPIN_COST 11 1010) committed = Inl (CooldownNotExpired 20)"
    using admission_order [OF unpaused(1), of "tx 5 SPIN_COST 11 1010" pairing_hash 42 42,
      THEN conjunct2, THEN conjunct2, THEN conjunct1]
    by (simp add: tx_def committed_eq MAX_PRIZE_def COOLDOWN_PERIOD_def MAX_UINT256_def)
  have overlap:
    "commitSpin pairing_hash (tx 5 SPIN_COST 20 1030) 42 committed
       = Inl (Require ''Previous spin not revealed'')"
    using admission_order [OF unpaused(1), of "tx 5 SPIN_COST 20 1030" pairing_hash 42 42,
      THEN conjunct2, THEN conjunct2, THEN conjunct2, THEN conjunct1]
    by (simp add: tx_def committed_eq MAX_PRIZE_def COOLDOWN_PERIOD_def MAX_UINT256_def
        hasPendingCommit_def)
  note sets = admission_order [THEN conjunct2, THEN conjunct2, THEN conjunct2, THEN conjunct2,
      THEN conjunct2]
  have "\<exists>h. commitSpin pairing_hash (tx 5 SPIN_COST 10 1000) 42 funded = Inr (h, committed)"
    by (simp add: eval_defs commitSpin_def)
  then obtain h where "commitSpin pairing_hash (tx 5 SPIN_COST 10 1000) 42 funded = Inr (h, committed)" ..
  from sets [OF unpaused(2), THEN conjunct1, rule_format, OF this]
  have by_commit: "s_lastSpinTime committed 5 = 1000"
    by (simp add: tx_def)
  have "\<exists>p s'. quickSpin pairing_hash (tx 5 SPIN_COST 20 1030) committed = Inr (p, s')"
    by (simp add: eval_defs quickSpin_settle settle_cases)
  then obtain p s' where q: "quickSpin pairing_hash (tx 5 SPIN_COST 20 1030) committed = Inr (p, s')"
    by blast
  from sets [OF unpaused(1), THEN conjunct2, THEN conjunct1, rule_format, OF q] q
  have by_quick:
    "s_lastSpinTime (transact pairing_hash (tx 5 SPIN_COST 20 1030) QuickSpin committed) 5 = 1030"
    by (simp add: tx_def transact_def)
  have "\<exists>p s'. revealSpin pairing_hash (tx 5 0 12 1024) 42 committed = Inr (p, s')"
    by (simp add: eval_defs revealSpin_settle settle_cases)
  then obtain p' s'' where r: "revealSpin pairing_hash (tx 5 0 12 1024) 42 committed = Inr (p', s'')"
    by blast
  from sets [OF unpaused(1), THEN conjunct2, THEN conjunct2, rule_format, OF r] r by_commit
  have by_reveal:
    "s_lastSpinTime (transact pairing_hash (tx 5 0 12 1024) (RevealSpin 42) committed) 5 = 1000"
    by (simp add: tx_def transact_def nonpayable_def)
  show ?thesis
    using wrong_value insolvent cooling overlap by_commit by_quick by_reveal by simp

qed

section \<open>Ledger invariants\<close>

lemma settle_backed:
  assumes "settle e sender bet r prize s1 = Inr (p, s')" and "backed s1"
  shows "backed s'"
  using settle_Inr(8,9) [OF assms(1)] assms(2) by (auto simp add: backed_def)

lemma transact_backed:
  assumes "backed s"
  shows "backed (transact keccak e c s)"
proof (cases "dispatch keccak e c s")
  case (Inl err)
  then show ?thesis using assms by (simp add: transact_def)
next
  case (Inr s')
  have "backed s'"
  proof (cases c)
    case DepositFunds
    then show ?thesis using Inr assms
      by (auto simp add: depositFunds_def backed_def Let_def split: if_splits)
  next
    case (WithdrawFunds amount)
    then show ?thesis using Inr assms
      by (auto simp add: withdrawFunds_def call_value_def nonpayable_def backed_def Let_def
          split: if_splits)
  next
    case (CommitSpin secretHash)
    then obtain h where "commitSpin keccak e secretHash s = Inr (h, s')"
      using Inr by (cases "commitSpin keccak e secretHash s") auto
    from commitSpin_Inr(7) [OF this] assms show ?thesis
      by (simp add: backed_def)
  next
    case (RevealSpin secret)
    then obtain p where "revealSpin keccak e secret s = Inr (p, s')"
      using Inr by (cases "revealSpin keccak e secret s") (auto simp add: nonpayable_def split: if_splits)
    from settle_backed [OF revealSpin_Inr(7) [OF this]] assms show ?thesis
      by (simp add: backed_def)
  next
    case QuickSpin
    then obtain p where "quickSpin keccak e s = Inr (p, s')"
      using Inr by (cases "quickSpin keccak e s") auto
    from settle_backed [OF quickSpin_Inr(7) [OF this]] quickSpin_Inr(2) [OF this] assms
    show ?thesis
      by (simp add: backed_def)
  next
    case Pause
    then show ?thesis using Inr assms
      by (auto simp add: pause_def nonpayable_def backed_def split: if_splits)
  next
    case Unpause
    then show ?thesis using Inr assms
      by (auto simp add: unpause_def nonpayable_def backed_def split: if_splits)
  next
    case EmergencyWithdraw
    then show ?thesis using Inr assms
      by (auto simp add: emergencyWithdraw_def call_value_def nonpayable_def backed_def Let_def
          split: if_splits)
  next
    case Receive
    then show ?thesis using Inr assms
      by (auto simp add: receive_def backed_def Let_def split: if_splits)
  next
    case Fallback
    then show ?thesis using Inr assms
      by (auto simp add: fallback_def backed_def Let_def split: if_splits)
  qed
  then show ?thesis using Inr by (simp add: transact_def)
qed

lemma run_backed: "backed s \<Longrightarrow> backed (run keccak txs s)"
  by (induction txs arbitrary: s) (auto simp add: transact_backed)

text \<open>
  C5. \<open>houseBalance\<close> never exceeds what the contract holds: both are zero at deployment,
  every transaction (deposit, bare transfer, commit, reveal, quick spin, withdrawal,
  emergency withdrawal, pause, unpause; completed or reverted) keeps
  \<open>houseBalance \<le> balance\<close>, and so does every sequence of transactions from deployment.
\<close>

theorem houseBalance_backed:
  "houseBalance (constructor e0) = 0 \<and> balance (constructor e0) = 0
   \<and> (houseBalance s \<le> balance s \<longrightarrow>
        houseBalance (transact keccak e c s) \<le> balance (transact keccak e c s))
   \<and> houseBalance (run keccak txs (constructor e0)) \<le> balance (run keccak txs (constructor e0))"
proof -
  have "backed (constructor e0)"
    by (simp add: backed_def constructor_def)
  from run_backed [OF this] transact_backed [of s keccak e c] show ?thesis
    by (simp add: backed_def constructor_def)
qed

theorem houseBalance_backed_witness:
  "houseBalance funded \<le> balance funded
   \<and> houseBalance (transact pairing_hash (tx 1 0 3 200) (WithdrawFunds 500000000000000000) funded)
       \<le> balance (transact pairing_hash (tx 1 0 3 200) (WithdrawFunds 500000000000000000) funded)
   \<and> houseBalance (transact pairing_hash (tx 1 0 3 200) (WithdrawFunds 500000000000000000) funded)
       = 1500000000000000000
   \<and> houseBalance (run pairing_hash
         [(tx 1 2000000000000000000 2 100, DepositFunds),
          (tx 5 SPIN_COST 10 1000, CommitSpin (pairing_hash [Uint256 42])),
          (tx 5 0 12 1024, RevealSpin 42)] (constructor (tx 1 0 1 50)))
       \<le> balance (run pairing_hash
         [(tx 1 2000000000000000000 2 100, DepositFunds),
          (tx 5 SPIN_COST 10 1000, CommitSpin (pairing_hash [Uint256 42])),
          (tx 5 0 12 1024, RevealSpin 42)] (constructor (tx 1 0 1 50)))"
proof -
  have start: "houseBalance funded \<le> balance funded"
    by (simp add: funded_eq)
  note inv = houseBalance_backed [of "tx 1 0 1 50" funded pairing_hash "tx 1 0 3 200"
      "WithdrawFunds 500000000000000000"
      "[(tx 1 2000000000000000000 2 100, DepositFunds),
        (tx 5 SPIN_COST 10 1000, CommitSpin (pairing_hash [Uint256 42])),
        (tx 5 0 12 1024, RevealSpin 42)]"]
  have "houseBalance (transact pairing_hash (tx 1 0 3 200) (WithdrawFunds 500000000000000000) funded)
       = 1500000000000000000"
    by (simp add: eval_defs withdrawFunds_def)
  with start inv show ?thesis by blast
qed


lemma transact_stats:
  "playerTotalSpins s p \<le> playerTotalSpins (transact keccak e c s) p
   \<and> playerTotalWins s p \<le> playerTotalWins (transact keccak e c s) p
   \<and> (\<not> resolves c \<longrightarrow>
        playerTotalSpins (transact keccak e c s) = playerTotalSpins s
        \<and> playerTotalWins (transact keccak e c s) = playerTotalWins s)"
proof (cases "dispatch keccak e c s")
  case (Inl err)
  then show ?thesis by (simp add: transact_def)
next
  case (Inr s')
  have "playerTotalSpins s p \<le> playerTotalSpins s' p \<and> playerTotalWins s p \<le> playerTotalWins s' p
        \<and> (\<not> resolves c \<longrightarrow> playerTotalSpins s' = playerTotalSpins s \<and> playerTotalWins s' = playerTotalWins s)"
  proof (cases c)
    case DepositFunds
    then show ?thesis using Inr
      by (auto simp add: depositFunds_def Let_def split: if_splits)
  next
    case (WithdrawFunds amount)
    then show ?thesis using Inr
      by (auto simp add: withdrawFunds_def call_value_def nonpayable_def Let_def split: if_splits)
  next
    case (CommitSpin secretHash)
    then obtain h where "commitSpin keccak e secretHash s = Inr (h, s')"
      using Inr by (cases "commitSpin keccak e secretHash s") auto
    from commitSpin_Inr(7) [OF this] show ?thesis
      by simp
  next
    case (RevealSpin secret)
    then obtain q where "revealSpin keccak e secret s = Inr (q, s')"
      using Inr by (cases "revealSpin keccak e secret s") (auto simp add: nonpayable_def split: if_splits)
    from settle_Inr(7,9) [OF revealSpin_Inr(7) [OF this]] RevealSpin show ?thesis
      by auto
  next
    case QuickSpin
    then obtain q where "quickSpin keccak e s = Inr (q, s')"
      using Inr by (cases "quickSpin keccak e s") auto
    from settle_Inr(7,9) [OF quickSpin_Inr(7) [OF this]] QuickSpin show ?thesis
      by auto
  next
    case Pause
    then show ?thesis using Inr
      by (auto simp add: pause_def nonpayable_def split: if_splits)
  next
    case Unpause
    then show ?thesis using Inr
      by (auto simp add: unpause_def nonpayable_def split: if_splits)
  next
    case EmergencyWithdraw
    then show ?thesis using Inr
      by (auto simp add: emergencyWithdraw_def call_value_def nonpayable_def Let_def split: if_splits)
  next
    case Receive
    then show ?thesis using Inr
      by (auto simp add: receive_def Let_def split: if_splits)
  next
    case Fallback
    then show ?thesis using Inr
      by (auto simp add: fallback_def Let_def split: if_splits)
  qed
  then show ?thesis using Inr by (simp add: transact_def)
qed

lemma run_stats:
  "playerTotalSpins s p \<le> playerTotalSpins (run keccak txs s) p
   \<and> playerTotalWins s p \<le> playerTotalWins (run keccak txs s) p"
proof (induction txs arbitrary: s)
  case Nil
  then show ?case by simp
next
  case (Cons a txs)
  obtain e c where a: "a = (e, c)" by (cases a)
  from Cons [of "transact keccak e c s"] transact_stats [of s p keccak e c] a
  show ?case by (auto intro: le_trans)
qed

text \<open>
  C9. For every player the cumulative spin count and the cumulative winnings never
  decrease: not over one transaction, not over a sequence of them. They can only change
  in a completed \<open>revealSpin\<close> or \<open>quickSpin\<close>: any other transaction, and any reverted
  one, leaves both mappings as they were.
\<close>

theorem statistics_monotone:
  "playerTotalSpins s p \<le> playerTotalSpins (transact keccak e c s) p
   \<and> playerTotalWins s p \<le> playerTotalWins (transact keccak e c s) p
   \<and> (\<not> resolves c \<or> reverted keccak e c s \<longrightarrow>
        playerTotalSpins (transact keccak e c s) = playerTotalSpins s
        \<and> playerTotalWins (transact keccak e c s) = playerTotalWins s)
   \<and> playerTotalSpins s p \<le> playerTotalSpins (run keccak txs s) p
   \<and> playerTotalWins s p \<le> playerTotalWins (run keccak txs s) p"
proof -
  have "reverted keccak e c s \<longrightarrow> transact keccak e c s = s"
    by (simp add: reverted_def transact_def split: sum.splits)
  with transact_stats [of s p keccak e c] run_stats [of s p keccak txs] show ?thesis
    by auto
qed


theorem statistics_monotone_witness:
  "playerTotalSpins committed 5
     \<le> playerTotalSpins (transact pairing_hash (tx 5 0 12 1024) (RevealSpin 42) committed) 5
   \<and> playerTotalSpins (transact pairing_hash (tx 5 0 12 1024) (RevealSpin 42) committed) 5 = 1
   \<and> playerTotalWins (transact pairing_hash (tx 6 SPIN_COST 12 1611) QuickSpin committed) 6
       = 50000000000000000
   \<and> playerTotalWins (transact pairing_hash (tx 1 0 3 200) (WithdrawFunds 500000000000000000) committed)
       = playerTotalWins committed
   \<and> playerTotalSpins (transact pairing_hash (tx 5 0 11 1024) (RevealSpin 42) committed)
       = playerTotalSpins committed"
proof -
  have "reverted pairing_hash (tx 5 0 11 1024) (RevealSpin 42) committed"
    by (simp add: eval_defs revealSpin_settle)
  with statistics_monotone [of committed 5 pairing_hash "tx 5 0 11 1024" "RevealSpin 42" "[]"]
  have early: "playerTotalSpins (transact pairing_hash (tx 5 0 11 1024) (RevealSpin 42) committed)
       = playerTotalSpins committed"
    by blast
  have "\<not> resolves (WithdrawFunds 500000000000000000)"
    by simp
  with statistics_monotone [of committed 5 pairing_hash "tx 1 0 3 200"
      "WithdrawFunds 500000000000000000" "[]"]
  have other: "playerTotalWins (transact pairing_hash (tx 1 0 3 200)
        (WithdrawFunds 500000000000000000) committed) = playerTotalWins committed"
    by blast
  have resolved:
    "playerTotalSpins (transact pairing_hash (tx 5 0 12 1024) (RevealSpin 42) committed) 5 = 1"
    "playerTotalWins (transact pairing_hash (tx 6 SPIN_COST 12 1611) QuickSpin committed) 6
       = 50000000000000000"
    by (simp_all add: eval_defs revealSpin_settle quickSpin_settle settle_cases)
  from statistics_monotone [of committed 5 pairing_hash "tx 5 0 12 1024" "RevealSpin 42" "[]"]
    early other resolved
  show ?thesis by blast
qed

section \<open>Payout\<close>

text \<open>
  What \<open>revealSpin\<close> and \<open>quickSpin\<close> do when every guard in front of the prize transfer
  passes, the prize is not zero and the transfer fails. The transfer is attempted on the
  storage in which the prize is already debited from the pool and credited to the player.
\<close>

lemma revealSpin_transfer_fails:
  assumes "\<not> paused s"
    and "blockNumber (commits s (msg_sender e)) \<noteq> 0"
    and "\<not> revealed (commits s (msg_sender e))"
    and "blockNumber (commits s (msg_sender e)) + REVEAL_DELAY \<le> block_number e"
    and "block_number e \<le> MAX_UINT256"
    and "1 \<le> nonce s"
    and "keccak [Bytes32 (keccak [Uint256 secret]), Address (msg_sender e),
                 Uint256 (s_lastSpinTime s (msg_sender e)), Uint256 (nonce s - 1)]
         = commitHash (commits s (msg_sender e))"
    and "draw = generateRandomNumber keccak e secret (blockNumber (commits s (msg_sender e))) s"
    and "prize = calculatePrize draw"
    and "0 < prize"
    and "prize \<le> houseBalance s"
    and "houseBalance s \<le> MAX_UINT256"
    and "playerTotalWins s (msg_sender e) + prize \<le> MAX_UINT256"
    and "playerTotalSpins s (msg_sender e) < MAX_UINT256"
    and "\<not> fst (call_value e (msg_sender e) prize
            (s\<lparr>commits := (commits s)(msg_sender e := (commits s (msg_sender e))\<lparr>revealed := True\<rparr>),
               houseBalance := houseBalance s - prize,
               playerTotalWins := (playerTotalWins s)
                 (msg_sender e := playerTotalWins s (msg_sender e) + prize)\<rparr>))"
  shows "\<exists>s'. revealSpin keccak e secret s = Inr (prize, s')
           \<and> houseBalance s' = houseBalance s \<and> playerTotalWins s' = playerTotalWins s
           \<and> balance s' = balance s
           \<and> revealed (commits s' (msg_sender e))
           \<and> playerTotalSpins s' (msg_sender e) = playerTotalSpins s (msg_sender e) + 1
           \<and> events s' = events s @
                [SpinRevealed (msg_sender e) (betAmount (commits s (msg_sender e))) prize draw
                   (block_timestamp e)]"
  using assms
  by (simp add: revealSpin_settle settle_cases Let_def)

lemma quickSpin_transfer_fails:
  assumes "\<not> paused s"
    and "msg_value e = SPIN_COST"
    and "MAX_PRIZE \<le> houseBalance s"
    and "s_lastSpinTime s (msg_sender e) + COOLDOWN_PERIOD \<le> block_timestamp e"
    and "block_timestamp e \<le> MAX_UINT256"
    and "houseBalance s + SPIN_COST \<le> MAX_UINT256"
    and "nonce s < MAX_UINT256"
    and "0 < block_number e"
    and "draw = keccak [Uint256 (block_prevrandao e), Uint256 (block_timestamp e),
                        Address (msg_sender e), Uint256 (nonce s + 1),
                        Bytes32 (blockhash e (block_number e - 1)),
                        Uint256 (balance s + SPIN_COST)] mod 1000"
    and "prize = calculatePrize draw"
    and "0 < prize"
    and "playerTotalWins s (msg_sender e) + prize \<le> MAX_UINT256"
    and "playerTotalSpins s (msg_sender e) < MAX_UINT256"
    and "\<not> fst (call_value e (msg_sender e) prize
            ((credit e s)\<lparr>houseBalance := houseBalance s + SPIN_COST,
               s_lastSpinTime := (s_lastSpinTime s)(msg_sender e := block_timestamp e),
               nonce := nonce s + 1\<rparr>
             \<lparr>houseBalance := houseBalance s + SPIN_COST - prize,
               playerTotalWins := (playerTotalWins s)
                 (msg_sender e := playerTotalWins s (msg_sender e) + prize)\<rparr>))"
  shows "\<exists>s'. quickSpin keccak e s = Inr (prize, s')
           \<and> houseBalance s' = houseBalance s + SPIN_COST \<and> playerTotalWins s' = playerTotalWins s
           \<and> balance s' = balance s + SPIN_COST
           \<and> playerTotalSpins s' (msg_sender e) = playerTotalSpins s (msg_sender e) + 1
           \<and> events s' = events s @
                [SpinRevealed (msg_sender e) SPIN_COST prize draw (block_timestamp e)]"
proof -
  have "prize \<le> MAX_PRIZE"
    using assms(10) by (simp add: calculatePrize_le_MAX_PRIZE)
  then show ?thesis using assms
    by (simp add: quickSpin_settle settle_cases Let_def)
qed

text \<open>
  C4. In \<open>revealSpin\<close> and in \<open>quickSpin\<close>, when the prize is not zero and its transfer
  fails, the call still completes and returns the prize: \<open>houseBalance\<close> and the player's
  cumulative winnings are back at their values from before the payout and no value has
  left the contract, but the commit is marked revealed (reveal path), the spin counter is
  incremented and \<open>SpinRevealed\<close> is logged. Every completed resolution increments the
  spin counter by one, prize or not, transfer or not. The hypotheses are the guards the
  code checks before the transfer, with the pool and the counters within \<open>uint256\<close>.
\<close>

theorem failed_transfer_still_resolves:
  "(\<not> paused s
      \<and> blockNumber (commits s (msg_sender e)) \<noteq> 0
      \<and> \<not> revealed (commits s (msg_sender e))
      \<and> blockNumber (commits s (msg_sender e)) + REVEAL_DELAY \<le> block_number e
      \<and> block_number e \<le> MAX_UINT256
      \<and> 1 \<le> nonce s
      \<and> keccak [Bytes32 (keccak [Uint256 secret]), Address (msg_sender e),
                 Uint256 (s_lastSpinTime s (msg_sender e)), Uint256 (nonce s - 1)]
         = commitHash (commits s (msg_sender e))
      \<and> draw = generateRandomNumber keccak e secret (blockNumber (commits s (msg_sender e))) s
      \<and> prize = calculatePrize draw
      \<and> 0 < prize
      \<and> prize \<le> houseBalance s
      \<and> houseBalance s \<le> MAX_UINT256
      \<and> playerTotalWins s (msg_sender e) + prize \<le> MAX_UINT256
      \<and> playerTotalSpins s (msg_sender e) < MAX_UINT256
      \<and> \<not> fst (call_value e (msg_sender e) prize
            (s\<lparr>commits := (commits s)(msg_sender e := (commits s (msg_sender e))\<lparr>revealed := True\<rparr>),
               houseBalance := houseBalance s - prize,
               playerTotalWins := (playerTotalWins s)
                 (msg_sender e := playerTotalWins s (msg_sender e) + prize)\<rparr>))
     \<longrightarrow>
     (\<exists>s'. revealSpin keccak e secret s = Inr (prize, s')
           \<and> houseBalance s' = houseBalance s \<and> playerTotalWins s' = playerTotalWins s
           \<and> balance s' = balance s
           \<and> revealed (commits s' (msg_sender e))
           \<and> playerTotalSpins s' (msg_sender e) = playerTotalSpins s (msg_sender e) + 1
           \<and> events s' = events s @
                [SpinRevealed (msg_sender e) (betAmount (commits s (msg_sender e))) prize draw
                   (block_timestamp e)]))
   \<and>
    (\<not> paused s
      \<and> msg_value e = SPIN_COST
      \<and> MAX_PRIZE \<le> houseBalance s
      \<and> s_lastSpinTime s (msg_sender e) + COOLDOWN_PERIOD \<le> block_timestamp e
      \<and> block_timestamp e \<le> MAX_UINT256
      \<and> houseBalance s + SPIN_COST \<le> MAX_UINT256
      \<and> nonce s < MAX_UINT256
      \<and> 0 < block_number e
      \<and> qdraw = keccak [Uint256 (block_prevrandao e), Uint256 (block_timestamp e),
                        Address (msg_sender e), Uint256 (nonce s + 1),
                        Bytes32 (blockhash e (block_number e - 1)),
                        Uint256 (balance s + SPIN_COST)] mod 1000
      \<and> qprize = calculatePrize qdraw
      \<and> 0 < qprize
      \<and> playerTotalWins s (msg_sender e) + qprize \<le> MAX_UINT256
      \<and> playerTotalSpins s (msg_sender e) < MAX_UINT256
      \<and> \<not> fst (call_value e (msg_sender e) qprize
            ((credit e s)\<lparr>houseBalance := houseBalance s + SPIN_COST,
               s_lastSpinTime := (s_lastSpinTime s)(msg_sender e := block_timestamp e),
               nonce := nonce s + 1\<rparr>
             \<lparr>houseBalance := houseBalance s + SPIN_COST - qprize,
               playerTotalWins := (playerTotalWins s)
                 (msg_sender e := playerTotalWins s (msg_sender e) + qprize)\<rparr>))
     \<longrightarrow>
     (\<exists>s'. quickSpin keccak e s = Inr (qprize, s')
           \<and> houseBalance s' = houseBalance s + SPIN_COST \<and> playerTotalWins s' = playerTotalWins s
           \<and> balance s' = balance s + SPIN_COST
           \<and> playerTotalSpins s' (msg_sender e) = playerTotalSpins s (msg_sender e) + 1
           \<and> events s' = events s @
                [SpinRevealed (msg_sender e) SPIN_COST qprize qdraw (block_timestamp e)]))
   \<and>
    (\<forall>p s'. revealSpin keccak e secret s = Inr (p, s') \<longrightarrow>
        playerTotalSpins s' (msg_sender e) = playerTotalSpins s (msg_sender e) + 1)
   \<and>
    (\<forall>p s'. quickSpin keccak e s = Inr (p, s') \<longrightarrow>
        playerTotalSpins s' (msg_sender e) = playerTotalSpins s (msg_sender e) + 1)"
proof (intro conjI impI allI)
  fix p s'
  assume "revealSpin keccak e secret s = Inr (p, s')"
  from settle_Inr(7) [OF revealSpin_Inr(7) [OF this]]
  show "playerTotalSpins s' (msg_sender e) = playerTotalSpins s (msg_sender e) + 1"
    by simp
next
  fix p s'
  assume "quickSpin keccak e s = Inr (p, s')"
  from settle_Inr(7) [OF quickSpin_Inr(7) [OF this]]
  show "playerTotalSpins s' (msg_sender e) = playerTotalSpins s (msg_sender e) + 1"
    by simp
qed ((elim conjE, rule revealSpin_transfer_fails quickSpin_transfer_fails; assumption)+)

theorem failed_transfer_still_resolves_witness:
  "(\<exists>s'. revealSpin pairing_hash (tx_rejected 5 0 12 1600) 42 committed = Inr (50000000000000000, s')
       \<and> houseBalance s' = houseBalance committed \<and> playerTotalWins s' = playerTotalWins committed
       \<and> balance s' = balance committed
       \<and> revealed (commits s' 5)
       \<and> playerTotalSpins s' 5 = playerTotalSpins committed 5 + 1
       \<and> events s' = events committed @ [SpinRevealed 5 100000000000000000 50000000000000000 648 1600])
   \<and> (\<exists>s'. quickSpin pairing_hash (tx_rejected 6 SPIN_COST 12 1611) committed
                = Inr (50000000000000000, s')
       \<and> houseBalance s' = houseBalance committed + SPIN_COST
       \<and> playerTotalWins s' = playerTotalWins committed
       \<and> balance s' = balance committed + SPIN_COST
       \<and> playerTotalSpins s' 6 = playerTotalSpins committed 6 + 1
       \<and> events s' = events committed @ [SpinRevealed 6 SPIN_COST 50000000000000000 619 1611])"
proof -
  note inst = failed_transfer_still_resolves [where s = committed and keccak = pairing_hash
      and secret = 42 and draw = 648 and prize = 50000000000000000
      and qdraw = 619 and qprize = 50000000000000000]
  have by_reveal:
    "\<exists>s'. revealSpin pairing_hash (tx_rejected 5 0 12 1600) 42 committed = Inr (50000000000000000, s')
       \<and> houseBalance s' = houseBalance committed \<and> playerTotalWins s' = playerTotalWins committed
       \<and> balance s' = balance committed
       \<and> revealed (commits s' 5)
       \<and> playerTotalSpins s' 5 = playerTotalSpins committed 5 + 1
       \<and> events s' = events committed @ [SpinRevealed 5 100000000000000000 50000000000000000 648 1600]"
    using inst [where e = "tx_rejected 5 0 12 1600", THEN conjunct1]
    by (simp add: eval_defs)
  have by_quick:
    "\<exists>s'. quickSpin pairing_hash (tx_rejected 6 SPIN_COST 12 1611) committed
                = Inr (50000000000000000, s')
       \<and> houseBalance s' = houseBalance committed + SPIN_COST
       \<and> playerTotalWins s' = playerTotalWins committed
       \<and> balance s' = balance committed + SPIN_COST
       \<and> playerTotalSpins s' 6 = playerTotalSpins committed 6 + 1
       \<and> events s' = events committed @ [SpinRevealed 6 SPIN_COST 50000000000000000 619 1611]"
    using inst [where e = "tx_rejected 6 SPIN_COST 12 1611", THEN conjunct2, THEN conjunct1]
    by (simp add: eval_defs)
  from by_reveal by_quick show ?thesis by blast
qed

section \<open>Solvency\<close>

lemma quickSpin_payout_covered:
  "quickSpin keccak e s \<noteq> Inl (Require ''Insufficient house balance'')"
proof -
  have "\<not> houseBalance s + SPIN_COST < calculatePrize r" if "\<not> houseBalance s < MAX_PRIZE" for r
    using that calculatePrize_le_MAX_PRIZE [of r] by simp
  then show ?thesis
    by (simp add: quickSpin_settle settle_cases Let_def)
qed

lemma revealSpin_payout_covered:
  assumes "MAX_PRIZE \<le> houseBalance s"
  shows "revealSpin keccak e secret s \<noteq> Inl (Require ''Insufficient house balance'')"
proof -
  have "\<not> houseBalance s < calculatePrize r" for r
    using assms calculatePrize_le_MAX_PRIZE [of r] by simp
  then show ?thesis
    by (simp add: revealSpin_settle settle_cases Let_def)
qed

text \<open>
  C3, as the code has it. A \<open>quickSpin\<close> that passes admission control can always be paid,
  whatever the draw: its payout-time check \<open>houseBalance \<ge> prize\<close> cannot fail. The check
  of a \<open>revealSpin\<close> cannot fail while \<open>houseBalance\<close> is at least \<open>MAX_PRIZE\<close>, as it is
  right after the commit was admitted. No completed resolution pays more than the pool
  holds: the prize is at most \<open>houseBalance\<close> and the pool either drops by exactly the
  prize or, when the transfer failed, stays.
\<close>

theorem payout_covered:
  "quickSpin keccak e s \<noteq> Inl (Require ''Insufficient house balance'')
   \<and> (MAX_PRIZE \<le> houseBalance s \<longrightarrow>
        revealSpin keccak e secret s \<noteq> Inl (Require ''Insufficient house balance''))
   \<and> (\<forall>h s1. commitSpin keccak e secretHash s = Inr (h, s1) \<longrightarrow>
        MAX_PRIZE + SPIN_COST \<le> houseBalance s1
        \<and> (\<forall>e2 secret2. revealSpin keccak e2 secret2 s1 \<noteq> Inl (Require ''Insufficient house balance'')))
   \<and> (\<forall>p s'. revealSpin keccak e secret s = Inr (p, s') \<longrightarrow>
        p \<le> houseBalance s
        \<and> (houseBalance s' + p = houseBalance s \<or> houseBalance s' = houseBalance s))
   \<and> (\<forall>p s'. quickSpin keccak e s = Inr (p, s') \<longrightarrow>
        p \<le> houseBalance s + SPIN_COST
        \<and> (houseBalance s' + p = houseBalance s + SPIN_COST \<or> houseBalance s' = houseBalance s + SPIN_COST))"
proof (intro conjI impI allI)
  show "quickSpin keccak e s \<noteq> Inl (Require ''Insufficient house balance'')"
    by (rule quickSpin_payout_covered)
next
  assume "MAX_PRIZE \<le> houseBalance s"
  then show "revealSpin keccak e secret s \<noteq> Inl (Require ''Insufficient house balance'')"
    by (rule revealSpin_payout_covered)
next
  fix h s1
  assume c: "commitSpin keccak e secretHash s = Inr (h, s1)"
  from commitSpin_Inr(3,7) [OF c] show pool: "MAX_PRIZE + SPIN_COST \<le> houseBalance s1"
    by simp
  fix e2 secret2
  from pool have "MAX_PRIZE \<le> houseBalance s1" by simp
  then show "revealSpin keccak e2 secret2 s1 \<noteq> Inl (Require ''Insufficient house balance'')"
    by (rule revealSpin_payout_covered)
next
  fix p s'
  assume r: "revealSpin keccak e secret s = Inr (p, s')"
  from settle_Inr(1,8,9) [OF revealSpin_Inr(7) [OF r]]
  show "p \<le> houseBalance s"
    and "houseBalance s' + p = houseBalance s \<or> houseBalance s' = houseBalance s"
    by auto
next
  fix p s'
  assume q: "quickSpin keccak e s = Inr (p, s')"
  from settle_Inr(1,8,9) [OF quickSpin_Inr(7) [OF q]]
  show "p \<le> houseBalance s + SPIN_COST"
    and "houseBalance s' + p = houseBalance s + SPIN_COST \<or> houseBalance s' = houseBalance s + SPIN_COST"
    by auto
qed


theorem payout_covered_witness:
  "quickSpin pairing_hash (tx 6 SPIN_COST 12 1611) committed
     \<noteq> Inl (Require ''Insufficient house balance'')
   \<and> revealSpin pairing_hash (tx 5 0 12 1600) 42 committed
     \<noteq> Inl (Require ''Insufficient house balance'')
   \<and> MAX_PRIZE + SPIN_COST \<le> houseBalance committed
   \<and> houseBalance (transact pairing_hash (tx 5 0 12 1600) (RevealSpin 42) committed) + PRIZE_1
       = houseBalance committed
   \<and> houseBalance (transact pairing_hash (tx 6 SPIN_COST 12 1611) QuickSpin committed) + PRIZE_1
       = houseBalance committed + SPIN_COST"
proof -
  have "\<exists>h. commitSpin pairing_hash (tx 5 SPIN_COST 10 1000) 42 funded = Inr (h, committed)"
    by (simp add: eval_defs commitSpin_def)
  then obtain h where c: "commitSpin pairing_hash (tx 5 SPIN_COST 10 1000) 42 funded = Inr (h, committed)" ..
  note after_commit = payout_covered [of pairing_hash "tx 5 SPIN_COST 10 1000" funded 42 42,
      THEN conjunct2, THEN conjunct2, THEN conjunct1, rule_format, OF c]
  have pool: "MAX_PRIZE \<le> houseBalance committed"
    using after_commit by simp
  note at_reveal = payout_covered [of pairing_hash "tx 5 0 12 1600" committed 42 42]
  note at_quick = payout_covered [of pairing_hash "tx 6 SPIN_COST 12 1611" committed 42 42]
  have paid:
    "houseBalance (transact pairing_hash (tx 5 0 12 1600) (RevealSpin 42) committed) + PRIZE_1
       = houseBalance committed"
    "houseBalance (transact pairing_hash (tx 6 SPIN_COST 12 1611) QuickSpin committed) + PRIZE_1
       = houseBalance committed + SPIN_COST"
    by (simp_all add: eval_defs revealSpin_settle quickSpin_settle settle_cases)
  from after_commit pool at_reveal [THEN conjunct2, THEN conjunct1] at_quick [THEN conjunct1] paid
  show ?thesis by blast
qed

text \<open>
  The solvency check of \<open>commitSpin\<close> does not reserve the pool for the reveal, which is a
  later transaction: after the owner has withdrawn the pool, the reveal of an admitted
  commit that draws a prize fails the payout-time check and reverts.
\<close>

theorem payout_check_can_fail:
  "hasPendingCommit 5 committed
   \<and> MAX_PRIZE \<le> houseBalance funded
   \<and> transact pairing_hash (tx 1 0 11 1010) (WithdrawFunds 2100000000000000000) committed
       = committed\<lparr>houseBalance := 0, balance := 0,
           events := events committed @ [FundsWithdrawn 1 2100000000000000000]\<rparr>
   \<and> calculatePrize (generateRandomNumber pairing_hash (tx 5 0 12 1600) 42 10
        (transact pairing_hash (tx 1 0 11 1010) (WithdrawFunds 2100000000000000000) committed))
       = PRIZE_1
   \<and> revealSpin pairing_hash (tx 5 0 12 1600) 42
        (transact pairing_hash (tx 1 0 11 1010) (WithdrawFunds 2100000000000000000) committed)
       = Inl (Require ''Insufficient house balance'')"
  by (simp add: eval_defs withdrawFunds_def revealSpin_settle settle_cases)

section \<open>Commit and reveal\<close>

lemma commitSpin_record:
  assumes "commitSpin keccak e secretHash s = Inr (h, s')"
  shows "commits s' (msg_sender e) =
           \<lparr>commitHash = keccak [Bytes32 secretHash, Address (msg_sender e),
                                   Uint256 (block_timestamp e), Uint256 (nonce s)],
            blockNumber = block_number e, betAmount = SPIN_COST, revealed = False\<rparr>"
    and "nonce s' = nonce s + 1"
    and "s_lastSpinTime s' (msg_sender e) = block_timestamp e"
    and "\<not> paused s'"
    and "houseBalance s' = houseBalance s + SPIN_COST"
  using commitSpin_Inr(1,6,7) [OF assms] by simp_all

lemma revealSpin_again:
  assumes "revealSpin keccak e secret s = Inr (p, s')" and "msg_sender e' = msg_sender e"
  shows "revealSpin keccak e' secret' s' = Inl CommitAlreadyRevealed"
proof -
  note st = settle_Inr(4,5) [OF revealSpin_Inr(7) [OF assms(1)]]
  from st revealSpin_Inr(1,2) [OF assms(1)] assms(2) show ?thesis
    by (simp add: revealSpin_settle Let_def)
qed

text \<open>
  What holds of a reveal whatever the nonce is. While the block height is below
  \<open>commit.blockNumber + REVEAL_DELAY\<close>, a reveal of a pending commit on a contract that is
  not paused fails with \<open>RevealTooEarly\<close> and the number of blocks remaining, with any
  secret. Once a reveal has completed, every later \<open>revealSpin\<close> of the player fails with
  \<open>CommitAlreadyRevealed\<close>, in any storage that is not paused and still holds that commit
  record.
\<close>

lemma revealSpin_too_early:
  assumes "\<not> paused s"
    and "hasPendingCommit (msg_sender e) s"
    and "blockNumber (commits s (msg_sender e)) + REVEAL_DELAY \<le> MAX_UINT256"
    and "block_number e < blockNumber (commits s (msg_sender e)) + REVEAL_DELAY"
  shows "revealSpin keccak e secret s =
           Inl (RevealTooEarly (blockNumber (commits s (msg_sender e)) + REVEAL_DELAY - block_number e))"
  using assms by (simp add: revealSpin_settle hasPendingCommit_def Let_def)

lemma revealSpin_at_most_once:
  assumes "revealSpin keccak e secret s = Inr (p, s')"
    and "msg_sender e' = msg_sender e"
    and "commits s'' (msg_sender e) = commits s' (msg_sender e)"
    and "\<not> paused s''"
  shows "revealSpin keccak e' secret' s'' = Inl CommitAlreadyRevealed"
proof -
  note st = settle_Inr(4) [OF revealSpin_Inr(7) [OF assms(1)]]
  from st revealSpin_Inr(2) [OF assms(1)] assms(2-4) show ?thesis
    by (simp add: revealSpin_settle Let_def)
qed

text \<open>
  The reveal that follows its commit with no spin in between: with the nonce and the
  player's last-spin timestamp as the commit left them, the contract not paused and the
  pool covering the drawn prize, \<open>revealSpin\<close> with the committed secret completes once
  the delay has passed.
\<close>

lemma revealSpin_after_commit:
  assumes "commitSpin keccak e1 (keccak [Uint256 secret]) s0 = Inr (h, s1)"
    and "0 < block_number e1"
    and "block_number e1 + REVEAL_DELAY \<le> MAX_UINT256"
    and "msg_sender e2 = msg_sender e1"
    and "commits s (msg_sender e1) = commits s1 (msg_sender e1)"
    and "nonce s = nonce s1"
    and "s_lastSpinTime s (msg_sender e1) = s_lastSpinTime s1 (msg_sender e1)"
    and "\<not> paused s"
  shows
    "(block_number e2 < block_number e1 + REVEAL_DELAY \<longrightarrow>
        revealSpin keccak e2 secret s
          = Inl (RevealTooEarly (block_number e1 + REVEAL_DELAY - block_number e2)))
     \<and> (block_number e1 + REVEAL_DELAY \<le> block_number e2
         \<and> calculatePrize (generateRandomNumber keccak e2 secret (block_number e1) s) \<le> houseBalance s
         \<and> houseBalance s \<le> MAX_UINT256
         \<and> playerTotalWins s (msg_sender e1) + MAX_PRIZE \<le> MAX_UINT256
         \<and> playerTotalSpins s (msg_sender e1) < MAX_UINT256 \<longrightarrow>
        (\<exists>s2. revealSpin keccak e2 secret s
                = Inr (calculatePrize (generateRandomNumber keccak e2 secret (block_number e1) s), s2)
           \<and> (\<forall>e3 secret3. msg_sender e3 = msg_sender e1 \<longrightarrow>
                 revealSpin keccak e3 secret3 s2 = Inl CommitAlreadyRevealed)))"
proof (intro conjI impI)
  note c = commitSpin_record [OF assms(1)]
  assume "block_number e2 < block_number e1 + REVEAL_DELAY"
  with c assms(2-8)
  show "revealSpin keccak e2 secret s
          = Inl (RevealTooEarly (block_number e1 + REVEAL_DELAY - block_number e2))"
    by (simp add: revealSpin_settle Let_def)
next
  note c = commitSpin_record [OF assms(1)]
  let ?prize = "calculatePrize (generateRandomNumber keccak e2 secret (block_number e1) s)"
  assume a: "block_number e1 + REVEAL_DELAY \<le> block_number e2
         \<and> ?prize \<le> houseBalance s
         \<and> houseBalance s \<le> MAX_UINT256
         \<and> playerTotalWins s (msg_sender e1) + MAX_PRIZE \<le> MAX_UINT256
         \<and> playerTotalSpins s (msg_sender e1) < MAX_UINT256"
  have "playerTotalWins s (msg_sender e1) + ?prize \<le> MAX_UINT256"
    using a calculatePrize_le_MAX_PRIZE [of "generateRandomNumber keccak e2 secret (block_number e1) s"]
    by simp
  with a c assms(2-8)
  have "\<exists>s2. revealSpin keccak e2 secret s = Inr (?prize, s2)"
    by (simp add: revealSpin_settle settle_cases Let_def)
  then obtain s2 where r: "revealSpin keccak e2 secret s = Inr (?prize, s2)" ..
  have "\<forall>e3 secret3. msg_sender e3 = msg_sender e1 \<longrightarrow>
          revealSpin keccak e3 secret3 s2 = Inl CommitAlreadyRevealed"
    using revealSpin_again [OF r] assms(4) by simp
  with r show "\<exists>s2. revealSpin keccak e2 secret s = Inr (?prize, s2)
           \<and> (\<forall>e3 secret3. msg_sender e3 = msg_sender e1 \<longrightarrow>
                 revealSpin keccak e3 secret3 s2 = Inl CommitAlreadyRevealed)"
    by blast
qed

text \<open>
  Two gates in front of the payout are deliberate and do not depend on the hash: a paused
  contract rejects every reveal, and once the owner has withdrawn the whole pool a reveal
  whose draw wins a prize fails the payout-time check.
\<close>

lemma revealSpin_paused: "paused s \<Longrightarrow> revealSpin keccak e secret s = Inl EnforcedPause"
  by (simp add: revealSpin_def Let_def)

lemma revealSpin_drained:
  assumes "commitSpin keccak e1 (keccak [Uint256 secret]) s0 = Inr (h, s1)"
    and "withdrawFunds e (houseBalance s1) s1 = Inr s"
    and "msg_sender e2 = msg_sender e1"
    and "0 < block_number e1"
    and "block_number e1 + REVEAL_DELAY \<le> block_number e2"
    and "block_number e2 \<le> MAX_UINT256"
    and "0 < calculatePrize (generateRandomNumber keccak e2 secret (block_number e1) s)"
  shows "revealSpin keccak e2 secret s = Inl (Require ''Insufficient house balance'')"
proof -
  note c = commitSpin_record [OF assms(1)]
  have s: "s = s1\<lparr>houseBalance := 0, balance := balance s1 - houseBalance s1,
            events := events s1 @ [FundsWithdrawn (owner s1) (houseBalance s1)]\<rparr>"
    using assms(2) by (auto simp add: withdrawFunds_def call_value_def Let_def split: if_splits)
  have "commits s = commits s1" "nonce s = nonce s1" "s_lastSpinTime s = s_lastSpinTime s1"
    "paused s = paused s1" "houseBalance s = 0"
    by (simp_all add: s)
  with c assms(3-7) show ?thesis
    by (simp add: revealSpin_settle settle_cases Let_def)
qed

text \<open>
  C1. A reveal with the correct secret should fail before the delay has passed and succeed
  exactly once after it. The code misses this when any other spin is admitted between
  the commit and the reveal: \<open>revealSpin\<close> recomputes the commitment with the current
  \<open>nonce - 1\<close>, which its comment calls the nonce from commit time, and that is no longer
  the nonce the commit was hashed with. Here account 5 has committed to the secret 42 in
  block 10; left alone, its reveal in block 12 completes. After the quick spin of account
  6 in block 11 the contract is not paused, the commit is still pending and the pool
  covers every prize, yet the same reveal reverts with \<open>Invalid secret\<close>, in block 12 and
  in any later block, and the pending commit keeps the player from committing again.
\<close>

theorem reveal_lost_to_foreign_spin:
  "hasPendingCommit 5 committed
   \<and> (\<exists>s2. revealSpin pairing_hash (tx 5 0 12 1024) 42 committed = Inr (0, s2))
   \<and> \<not> reverted pairing_hash (tx 6 SPIN_COST 11 1030) QuickSpin committed
   \<and> \<not> paused (transact pairing_hash (tx 6 SPIN_COST 11 1030) QuickSpin committed)
   \<and> hasPendingCommit 5 (transact pairing_hash (tx 6 SPIN_COST 11 1030) QuickSpin committed)
   \<and> MAX_PRIZE \<le> houseBalance (transact pairing_hash (tx 6 SPIN_COST 11 1030) QuickSpin committed)
   \<and> nonce committed = 1
   \<and> nonce (transact pairing_hash (tx 6 SPIN_COST 11 1030) QuickSpin committed) = 2
   \<and> revealSpin pairing_hash (tx 5 0 12 1024) 42
        (transact pairing_hash (tx 6 SPIN_COST 11 1030) QuickSpin committed)
       = Inl (Require ''Invalid secret'')
   \<and> revealSpin pairing_hash (tx 5 0 500 9000) 42
        (transact pairing_hash (tx 6 SPIN_COST 11 1030) QuickSpin committed)
       = Inl (Require ''Invalid secret'')
   \<and> commitSpin pairing_hash (tx 5 SPIN_COST 500 9000) (pairing_hash [Uint256 43])
        (transact pairing_hash (tx 6 SPIN_COST 11 1030) QuickSpin committed)
       = Inl (Require ''Previous spin not revealed'')"
  by (simp add: eval_defs commitSpin_def quickSpin_settle revealSpin_settle settle_cases)

text \<open>
  The nonce never goes down, and every admitted spin, commit or quick, advances it by one.
\<close>

lemma transact_nonce:
  "nonce s \<le> nonce (transact keccak e c s)
   \<and> (is_spin c \<and> \<not> reverted keccak e c s \<longrightarrow> nonce (transact keccak e c s) = nonce s + 1)"
proof (cases "dispatch keccak e c s")
  case (Inl err)
  then show ?thesis by (simp add: transact_def reverted_def)
next
  case (Inr s')
  have "nonce s \<le> nonce s' \<and> (is_spin c \<longrightarrow> nonce s' = nonce s + 1)"
  proof (cases c)
    case DepositFunds
    then show ?thesis using Inr
      by (auto simp add: depositFunds_def Let_def split: if_splits)
  next
    case (WithdrawFunds amount)
    then show ?thesis using Inr
      by (auto simp add: withdrawFunds_def call_value_def nonpayable_def Let_def split: if_splits)
  next
    case (CommitSpin secretHash)
    then obtain h where "commitSpin keccak e secretHash s = Inr (h, s')"
      using Inr by (cases "commitSpin keccak e secretHash s") auto
    from commitSpin_record(2) [OF this] show ?thesis
      by simp
  next
    case (RevealSpin secret)
    then obtain q where "revealSpin keccak e secret s = Inr (q, s')"
      using Inr by (cases "revealSpin keccak e secret s") (auto simp add: nonpayable_def split: if_splits)
    from settle_Inr(2) [OF revealSpin_Inr(7) [OF this]] RevealSpin show ?thesis
      by simp
  next
    case QuickSpin
    then obtain q where "quickSpin keccak e s = Inr (q, s')"
      using Inr by (cases "quickSpin keccak e s") auto
    from settle_Inr(2) [OF quickSpin_Inr(7) [OF this]] show ?thesis
      by simp
  next
    case Pause
    then show ?thesis using Inr
      by (auto simp add: pause_def nonpayable_def split: if_splits)
  next
    case Unpause
    then show ?thesis using Inr
      by (auto simp add: unpause_def nonpayable_def split: if_splits)
  next
    case EmergencyWithdraw
    then show ?thesis using Inr
      by (auto simp add: emergencyWithdraw_def call_value_def nonpayable_def Let_def split: if_splits)
  next
    case Receive
    then show ?thesis using Inr
      by (auto simp add: receive_def Let_def split: if_splits)
  next
    case Fallback
    then show ?thesis using Inr
      by (auto simp add: fallback_def Let_def split: if_splits)
  qed
  then show ?thesis using Inr by (simp add: transact_def reverted_def)
qed

lemma run_nonce: "nonce s \<le> nonce (run keccak txs s)"
proof (induction txs arbitrary: s)
  case Nil
  then show ?case by simp
next
  case (Cons a txs)
  obtain e c where a: "a = (e, c)" by (cases a)
  from Cons [of "transact keccak e c s"] transact_nonce [of s keccak e c] a
  show ?case by (auto intro: le_trans)
qed

lemma spun_nonce: "spun keccak txs s \<Longrightarrow> nonce s < nonce (run keccak txs s)"
proof (induction txs arbitrary: s)
  case Nil
  then show ?case by simp
next
  case (Cons a txs)
  obtain e c where a: "a = (e, c)" by (cases a)
  show ?case
  proof (cases "is_spin c \<and> \<not> reverted keccak e c s")
    case True
    with transact_nonce [of s keccak e c] have "nonce (transact keccak e c s) = nonce s + 1"
      by simp
    with run_nonce [of "transact keccak e c s" keccak txs] a show ?thesis
      by simp
  next
    case False
    with Cons.prems a have "spun keccak txs (transact keccak e c s)"
      by auto
    from Cons.IH [OF this] transact_nonce [of s keccak e c] a show ?thesis
      by simp
  qed
qed

text \<open>
  The reveal recomputes the commitment from the player's current last-spin timestamp and
  from the current nonce minus one, not from anything stored in the commit record.
\<close>

lemma revealSpin_binds:
  assumes "collision_free keccak"
    and "commitSpin keccak e1 (keccak [Uint256 secret]) s0 = Inr (h, s1)"
    and "msg_sender e2 = msg_sender e1"
    and "commits s (msg_sender e1) = commits s1 (msg_sender e1)"
    and "revealSpin keccak e2 secret s = Inr (prize, s')"
  shows "nonce s = nonce s1" and "s_lastSpinTime s (msg_sender e1) = s_lastSpinTime s1 (msg_sender e1)"
proof -
  note c = commitSpin_record [OF assms(2)]
  from revealSpin_Inr(5,6) [OF assms(5)] assms(3,4) c(1)
  have pos: "1 \<le> nonce s"
    and "keccak [Bytes32 (keccak [Uint256 secret]), Address (msg_sender e1),
                 Uint256 (s_lastSpinTime s (msg_sender e1)), Uint256 (nonce s - 1)]
         = keccak [Bytes32 (keccak [Uint256 secret]), Address (msg_sender e1),
                   Uint256 (block_timestamp e1), Uint256 (nonce s0)]"
    by simp_all
  with assms(1) have "s_lastSpinTime s (msg_sender e1) = block_timestamp e1" and "nonce s - 1 = nonce s0"
    unfolding collision_free_def by blast+
  with pos c(2,3) show "nonce s = nonce s1"
    and "s_lastSpinTime s (msg_sender e1) = s_lastSpinTime s1 (msg_sender e1)"
    by simp_all
qed

lemma revealSpin_after_spin:
  assumes "collision_free keccak"
    and "commitSpin keccak e1 (keccak [Uint256 secret]) s0 = Inr (h, s1)"
    and "msg_sender e2 = msg_sender e1"
    and "commits s (msg_sender e1) = commits s1 (msg_sender e1)"
    and "nonce s1 < nonce s"
    and "\<not> paused s" and "0 < block_number e1"
    and "block_number e1 + REVEAL_DELAY \<le> block_number e2" and "block_number e2 \<le> MAX_UINT256"
  shows "revealSpin keccak e2 secret s = Inl (Require ''Invalid secret'')"
proof -
  note c = commitSpin_record [OF assms(2)]
  have "nonce s - 1 \<noteq> nonce s0"
    using assms(5) c(2) by simp
  with assms(1)
  have "keccak [Bytes32 (keccak [Uint256 secret]), Address (msg_sender e1),
                 Uint256 (s_lastSpinTime s (msg_sender e1)), Uint256 (nonce s - 1)]
         \<noteq> keccak [Bytes32 (keccak [Uint256 secret]), Address (msg_sender e1),
                   Uint256 (block_timestamp e1), Uint256 (nonce s0)]"
    unfolding collision_free_def by blast
  with assms(3-9) c(1) show ?thesis
    by (simp add: revealSpin_settle Let_def)
qed

text \<open>
  C2. Let the hash be collision free on commitment preimages, and let a player's commit of
  the hash of \<open>secret\<close> be pending. A \<open>revealSpin\<close> with \<open>secret\<close> can only complete in a
  storage whose nonce is the one that commit left and in which the player's last-spin
  timestamp is still the commit's. After any sequence of transactions in which a
  \<open>commitSpin\<close> or a \<open>quickSpin\<close> of any player went through, the nonce is higher, the
  reveal never completes, and where it gets as far as the commitment check (contract not
  paused, delay elapsed) it fails with \<open>Invalid secret\<close>.
\<close>

theorem reveal_bound_to_nonce:
  assumes "collision_free keccak"
    and "commitSpin keccak e1 (keccak [Uint256 secret]) s0 = Inr (h, s1)"
    and "msg_sender e2 = msg_sender e1"
    and "commits s (msg_sender e1) = commits s1 (msg_sender e1)"
  shows
    "(\<forall>prize s'. revealSpin keccak e2 secret s = Inr (prize, s') \<longrightarrow>
        nonce s = nonce s1
        \<and> s_lastSpinTime s (msg_sender e1) = s_lastSpinTime s1 (msg_sender e1))
     \<and> (s = run keccak txs s1 \<and> spun keccak txs s1 \<longrightarrow>
        nonce s1 < nonce s
        \<and> (\<forall>prize s'. revealSpin keccak e2 secret s \<noteq> Inr (prize, s'))
        \<and> (\<not> paused s \<and> 0 < block_number e1
            \<and> block_number e1 + REVEAL_DELAY \<le> block_number e2
            \<and> block_number e2 \<le> MAX_UINT256 \<longrightarrow>
            revealSpin keccak e2 secret s = Inl (Require ''Invalid secret'')))"
proof (intro conjI impI allI)
  fix prize s'
  assume "revealSpin keccak e2 secret s = Inr (prize, s')"
  from revealSpin_binds [OF assms this]
  show "nonce s = nonce s1"
    and "s_lastSpinTime s (msg_sender e1) = s_lastSpinTime s1 (msg_sender e1)" .
next
  assume "s = run keccak txs s1 \<and> spun keccak txs s1"
  then show later: "nonce s1 < nonce s"
    using spun_nonce [of keccak txs s1] by simp
  fix prize s'
  show "revealSpin keccak e2 secret s \<noteq> Inr (prize, s')"
    using revealSpin_binds(1) [OF assms] later by auto
next
  assume "s = run keccak txs s1 \<and> spun keccak txs s1"
  then have later: "nonce s1 < nonce s"
    using spun_nonce [of keccak txs s1] by simp
  assume "\<not> paused s \<and> 0 < block_number e1
            \<and> block_number e1 + REVEAL_DELAY \<le> block_number e2
            \<and> block_number e2 \<le> MAX_UINT256"
  with revealSpin_after_spin [OF assms later]
  show "revealSpin keccak e2 secret s = Inl (Require ''Invalid secret'')"
    by simp
qed


theorem reveal_bound_to_nonce_witness:
  "collision_free pairing_hash
   \<and> spun pairing_hash [(tx 6 SPIN_COST 11 1030, QuickSpin)] committed
   \<and> nonce committed < nonce (run pairing_hash [(tx 6 SPIN_COST 11 1030, QuickSpin)] committed)
   \<and> revealSpin pairing_hash (tx 5 0 12 1024) 42
        (run pairing_hash [(tx 6 SPIN_COST 11 1030, QuickSpin)] committed)
       = Inl (Require ''Invalid secret'')
   \<and> spun pairing_hash [(tx 6 SPIN_COST 11 1030, CommitSpin 7)] committed
   \<and> revealSpin pairing_hash (tx 5 0 12 1024) 42
        (run pairing_hash [(tx 6 SPIN_COST 11 1030, CommitSpin 7)] committed)
       = Inl (Require ''Invalid secret'')
   \<and> (\<exists>s'. revealSpin pairing_hash (tx 5 0 12 1024) 42 committed = Inr (0, s'))
   \<and> nonce (run pairing_hash [(tx 1 0 11 1010, WithdrawFunds 7)] committed) = nonce committed"
proof -
  have "\<exists>h. commitSpin pairing_hash (tx 5 SPIN_COST 10 1000) (pairing_hash [Uint256 42]) funded
          = Inr (h, committed)"
    by (simp add: eval_defs commitSpin_def)
  then obtain h where c:
    "commitSpin pairing_hash (tx 5 SPIN_COST 10 1000) (pairing_hash [Uint256 42]) funded
       = Inr (h, committed)" ..
  have sender: "msg_sender (tx 5 0 12 1024) = msg_sender (tx 5 SPIN_COST 10 1000)"
    by (simp add: tx_def)
  let ?quick = "[(tx 6 SPIN_COST 11 1030, QuickSpin)]"
  let ?commit = "[(tx 6 SPIN_COST 11 1030, CommitSpin 7)]"
  let ?other = "[(tx 1 0 11 1010, WithdrawFunds 7)]"
  have still:
    "commits (run pairing_hash ?quick committed) (msg_sender (tx 5 SPIN_COST 10 1000))
       = commits committed (msg_sender (tx 5 SPIN_COST 10 1000))"
    "commits (run pairing_hash ?commit committed) (msg_sender (tx 5 SPIN_COST 10 1000))
       = commits committed (msg_sender (tx 5 SPIN_COST 10 1000))"
    "commits (run pairing_hash ?other committed) (msg_sender (tx 5 SPIN_COST 10 1000))
       = commits committed (msg_sender (tx 5 SPIN_COST 10 1000))"
    by (simp_all add: eval_defs quickSpin_settle settle_cases commitSpin_def withdrawFunds_def)
  have spins: "spun pairing_hash ?quick committed" "spun pairing_hash ?commit committed"
    by (simp_all add: eval_defs quickSpin_settle settle_cases commitSpin_def)
  have env: "\<not> paused (run pairing_hash ?quick committed)"
    "\<not> paused (run pairing_hash ?commit committed)"
    "0 < block_number (tx 5 SPIN_COST 10 1000)"
    "block_number (tx 5 SPIN_COST 10 1000) + REVEAL_DELAY \<le> block_number (tx 5 0 12 1024)"
    "block_number (tx 5 0 12 1024) \<le> MAX_UINT256"
    by (simp_all add: eval_defs quickSpin_settle settle_cases commitSpin_def)
  note after_quick = reveal_bound_to_nonce [OF collision_free_pairing_hash c sender still(1),
      of ?quick, THEN conjunct2, rule_format, OF conjI, OF refl spins(1)]
  note after_commit = reveal_bound_to_nonce [OF collision_free_pairing_hash c sender still(2),
      of ?commit, THEN conjunct2, rule_format, OF conjI, OF refl spins(2)]
  have direct: "\<exists>s'. revealSpin pairing_hash (tx 5 0 12 1024) 42 committed = Inr (0, s')"
    by (simp add: eval_defs revealSpin_settle settle_cases)
  have "\<exists>p s'. revealSpin pairing_hash (tx 5 0 12 1024) 42 (run pairing_hash ?other committed)
        = Inr (p, s')"
    by (simp add: eval_defs revealSpin_settle settle_cases withdrawFunds_def)
  then obtain p s' where other:
    "revealSpin pairing_hash (tx 5 0 12 1024) 42 (run pairing_hash ?other committed) = Inr (p, s')"
    by blast
  from reveal_bound_to_nonce [OF collision_free_pairing_hash c sender still(3),
      THEN conjunct1, rule_format, OF other]
  have unchanged: "nonce (run pairing_hash ?other committed) = nonce committed"
    by simp
  from after_quick env(1,3-5) after_commit env(2) spins direct unchanged collision_free_pairing_hash
  show ?thesis by blast
qed

end
